theory Spec2Isabelle
  imports Complex_Main
begin

section \<open>Data model of the image viewer\<close>

text \<open>
  The development follows \<^verbatim>\<open>src/ismrmrdviewer/viewer/ImageViewer.py\<close> (the variant with
  the Contrast axis and the per-frame rotation and flips). Python exceptions are values of
  the type \<open>error\<close>; a function that may raise returns \<open>error + 'a\<close>, with \<open>Inl\<close> the
  exception. Floating-point numbers are modelled without rounding: a pixel intensity is
  a real number, and a number that the viewer computes by a division (window, level, and
  with them the display range) is a value of \<open>npfloat\<close>, which adds the two infinities
  and \<^verbatim>\<open>nan\<close> to the reals. A division of numpy scalars by zero raises nothing: it
  yields an infinity or \<^verbatim>\<open>nan\<close>, and the viewer goes on with that value.

  A name of the source that ends in an underscore loses it (\<open>nrot\<close>, \<open>fliph\<close>,
  \<open>flipv\<close>, \<open>idx\<close>) or ends in \<open>_v\<close> (\<open>data_v\<close>), and so does a name that HOL
  already uses (\<open>min_v\<close>, \<open>max_v\<close>, \<open>range_v\<close>, \<open>image_v\<close>, \<open>set_v\<close>, \<open>log_v\<close>).
\<close>

datatype error = IndexError | ValueError | ZeroDivisionError | AttributeError

text \<open>
  The values of a numpy floating-point scalar. Arithmetic follows IEEE 754 on the
  infinities and \<^verbatim>\<open>nan\<close> and is exact on the reals; the sign of a zero is not
  modelled, a zero divisor counts as positive. Every comparison with \<^verbatim>\<open>nan\<close> is
  false.
\<close>

datatype npfloat = Fin real | PosInf | NegInf | NaN

definition inf_of :: "real \<Rightarrow> npfloat" where
  "inf_of s = (if 0 < s then PosInf else if s < 0 then NegInf else NaN)"

definition sign_of :: "npfloat \<Rightarrow> real" where
  "sign_of x = (case x of Fin a \<Rightarrow> sgn a | PosInf \<Rightarrow> 1 | NegInf \<Rightarrow> - 1 | NaN \<Rightarrow> 0)"

definition isfinite :: "npfloat \<Rightarrow> bool" where
  "isfinite x = (case x of Fin a \<Rightarrow> True | _ \<Rightarrow> False)"

instantiation npfloat :: "{zero, numeral, uminus, minus, times, inverse, ord}"
begin

definition zero_npfloat :: npfloat where
  "zero_npfloat = Fin 0"

definition one_npfloat :: npfloat where
  "one_npfloat = Fin 1"

definition plus_npfloat :: "npfloat \<Rightarrow> npfloat \<Rightarrow> npfloat" where
  "plus_npfloat x y =
     (case (x, y) of
        (Fin a, Fin b) \<Rightarrow> Fin (a + b)
      | (NaN, _) \<Rightarrow> NaN
      | (_, NaN) \<Rightarrow> NaN
      | (PosInf, NegInf) \<Rightarrow> NaN
      | (NegInf, PosInf) \<Rightarrow> NaN
      | (PosInf, _) \<Rightarrow> PosInf
      | (_, PosInf) \<Rightarrow> PosInf
      | (NegInf, _) \<Rightarrow> NegInf
      | (_, NegInf) \<Rightarrow> NegInf)"

definition uminus_npfloat :: "npfloat \<Rightarrow> npfloat" where
  "uminus_npfloat x =
     (case x of Fin a \<Rightarrow> Fin (- a) | PosInf \<Rightarrow> NegInf | NegInf \<Rightarrow> PosInf | NaN \<Rightarrow> NaN)"

definition minus_npfloat :: "npfloat \<Rightarrow> npfloat \<Rightarrow> npfloat" where
  "minus_npfloat x y = x + (- y)"

definition times_npfloat :: "npfloat \<Rightarrow> npfloat \<Rightarrow> npfloat" where
  "times_npfloat x y =
     (case (x, y) of
        (Fin a, Fin b) \<Rightarrow> Fin (a * b)
      | (NaN, _) \<Rightarrow> NaN
      | (_, NaN) \<Rightarrow> NaN
      | _ \<Rightarrow> inf_of (sign_of x * sign_of y))"

definition divide_npfloat :: "npfloat \<Rightarrow> npfloat \<Rightarrow> npfloat" where
  "divide_npfloat x y =
     (case (x, y) of
        (Fin a, Fin b) \<Rightarrow> (if b = 0 then inf_of a else Fin (a / b))
      | (NaN, _) \<Rightarrow> NaN
      | (_, NaN) \<Rightarrow> NaN
      | (Fin a, _) \<Rightarrow> Fin 0
      | (_, Fin b) \<Rightarrow> inf_of (sign_of x * (if 0 \<le> b then 1 else - 1))
      | _ \<Rightarrow> NaN)"

definition inverse_npfloat :: "npfloat \<Rightarrow> npfloat" where
  "inverse_npfloat x = divide (Fin 1) x"

definition less_eq_npfloat :: "npfloat \<Rightarrow> npfloat \<Rightarrow> bool" where
  "less_eq_npfloat x y =
     (case x of
        NaN \<Rightarrow> False
      | NegInf \<Rightarrow> y \<noteq> NaN
      | PosInf \<Rightarrow> y = PosInf
      | Fin a \<Rightarrow> (case y of Fin b \<Rightarrow> a \<le> b | PosInf \<Rightarrow> True | _ \<Rightarrow> False))"

definition less_npfloat :: "npfloat \<Rightarrow> npfloat \<Rightarrow> bool" where
  "less_npfloat x y =
     (case x of
        NaN \<Rightarrow> False
      | NegInf \<Rightarrow> y \<noteq> NaN \<and> y \<noteq> NegInf
      | PosInf \<Rightarrow> False
      | Fin a \<Rightarrow> (case y of Fin b \<Rightarrow> a < b | PosInf \<Rightarrow> True | _ \<Rightarrow> False))"

instance
proof
  fix a b c :: npfloat
  show "a + b + c = a + (b + c)"
    by (cases a; cases b; cases c) (simp_all add: plus_npfloat_def)
qed

end

text \<open>The fields of an image header that the viewer reads (\<^verbatim>\<open>headers['phase']\<close>, ...).\<close>

record image_header =
  hdr_phase :: int
  hdr_set :: int
  hdr_repetition :: int
  hdr_slice :: int
  hdr_contrast :: int
  hdr_average :: int

text \<open>
  An array of five axes \<^verbatim>\<open>[image, channel, z, y, x]\<close> is a list nested five deep.
  The pixel data of a container is real, or complex with the fields \<^verbatim>\<open>'real'\<close> and
  \<^verbatim>\<open>'imag'\<close>.
\<close>

type_synonym 'a array5 = "'a list list list list list"

datatype image_data = RealData "real array5" | ComplexData "(real \<times> real) array5"

record container =
  headers :: "image_header list"
  data :: image_data

datatype dim = Instance | Repetition | Set | Phase | Channel | Slice | Contrast

definition DIMS :: "dim list" where
  "DIMS = [Instance, Repetition, Set, Phase, Channel, Slice, Contrast]"

text \<open>The widgets, as far as the viewer reads and writes them.\<close>

record widget =
  enabled :: bool
  visible :: bool

record spinbox = widget +
  minimum :: int
  maximum :: int
  value_sb :: int

datatype icon = SP_MediaPlay | SP_MediaPause

record button = widget +
  checked :: bool
  icon_b :: icon

text \<open>A running timer: its interval and the axis that the closure \<^verbatim>\<open>increment\<close> captured.\<close>

record qtimer =
  interval :: real
  dimName :: dim

type_synonym coords = "int \<times> int \<times> int \<times> int \<times> int"

text \<open>
  The viewer object. \<open>cache\<close> is the table of the \<^verbatim>\<open>@cache\<close> decorator on
  \<^verbatim>\<open>fetch_image\<close>, and \<open>scans\<close> counts how often the decorated body has run.
  \<open>image_v\<close> is the displayed frame with its colour limits, \<open>label\<close> the six numbers of
  the label text, \<open>log_v\<close> the warnings logged.
\<close>

record viewer =
  container :: container
  data_v :: "real array5"
  selected :: "dim \<Rightarrow> spinbox"
  dim_buttons :: "dim \<Rightarrow> widget"
  checkedButton :: dim
  animate :: button
  nrot :: int
  fliph :: bool
  flipv :: bool
  min_v :: npfloat
  max_v :: npfloat
  range_v :: npfloat
  window :: npfloat
  level :: npfloat
  mloc :: "(real \<times> real) option"
  timer :: "qtimer option"
  timer_interval :: real
  image_v :: "(real list list \<times> npfloat \<times> npfloat) option"
  label :: "(int \<times> int \<times> int \<times> int \<times> int \<times> int) option"
  log_v :: "string list"
  cache :: "coords \<Rightarrow> real array5 option"
  scans :: nat

section \<open>The numpy operations used\<close>

text \<open>Indexing with an integer: a negative index counts from the end, out of range raises.\<close>

definition getitem :: "'a list \<Rightarrow> int \<Rightarrow> error + 'a" where
  "getitem xs i =
     (if 0 \<le> i \<and> i < int (length xs) then Inr (xs ! nat i)
      else if i < 0 \<and> - int (length xs) \<le> i then Inr (xs ! nat (int (length xs) + i))
      else Inl IndexError)"

text \<open>Indexing the first axis with a boolean mask: the mask must be as long as the axis.\<close>

definition mask_select :: "bool list \<Rightarrow> 'a list \<Rightarrow> error + 'a list" where
  "mask_select idx xs =
     (if length idx \<noteq> length xs then Inl IndexError
      else Inr (map snd (filter fst (zip idx xs))))"

definition np_eq :: "int list \<Rightarrow> int \<Rightarrow> bool list" where
  "np_eq xs c = map (\<lambda>x. x = c) xs"

definition np_and :: "bool list \<Rightarrow> bool list \<Rightarrow> bool list" where
  "np_and xs ys = map (\<lambda>(a, b). a \<and> b) (zip xs ys)"

text \<open>\<^verbatim>\<open>np.flip\<close> and \<^verbatim>\<open>np.rot90\<close> on the two axes of a matrix (a list of rows).\<close>

definition flip_axis0 :: "'a list list \<Rightarrow> 'a list list" where
  "flip_axis0 m = rev m"

definition flip_axis1 :: "'a list list \<Rightarrow> 'a list list" where
  "flip_axis1 m = map rev m"

definition rot90 :: "int \<Rightarrow> 'a list list \<Rightarrow> 'a list list" where
  "rot90 k m =
     (let k' = k mod 4 in
      if k' = 0 then m
      else if k' = 2 then flip_axis1 (flip_axis0 m)
      else if k' = 1 then transpose (flip_axis1 m)
      else flip_axis1 (transpose m))"

definition bind_err :: "error + 'a \<Rightarrow> ('a \<Rightarrow> error + 'b) \<Rightarrow> error + 'b" where
  "bind_err r f = (case r of Inl e \<Rightarrow> Inl e | Inr x \<Rightarrow> f x)"

section \<open>The frame index\<close>

text \<open>
  Lines 174 to 181: the stored data is rotated and flipped on its last two axes once, when
  the viewer is built; complex data is reduced to its magnitude first.
\<close>

definition orient :: "'a list list \<Rightarrow> 'a list list" where
  "orient m = flip_axis1 (rot90 1 m)"

definition load_data :: "container \<Rightarrow> real array5" where
  "load_data c =
     (case data c of
        ComplexData d \<Rightarrow>
          map (map (map (\<lambda>m. orient (map (map (\<lambda>(re, im). cmod (Complex re im))) m)))) d
      | RealData d \<Rightarrow> map (map (map orient)) d)"

text \<open>The convenience methods read the spin boxes.\<close>

definition frame :: "viewer \<Rightarrow> int" where
  "frame v = value_sb (selected v Instance)"

definition coil :: "viewer \<Rightarrow> int" where
  "coil v = value_sb (selected v Channel)"

definition slice :: "viewer \<Rightarrow> int" where
  "slice v = value_sb (selected v Slice)"

definition phase :: "viewer \<Rightarrow> int" where
  "phase v = value_sb (selected v Phase)"

definition set_v :: "viewer \<Rightarrow> int" where
  "set_v v = value_sb (selected v Set)"

definition contrast :: "viewer \<Rightarrow> int" where
  "contrast v = value_sb (selected v Contrast)"

definition repetition :: "viewer \<Rightarrow> int" where
  "repetition v = value_sb (selected v Repetition)"

text \<open>
  The body of \<^verbatim>\<open>fetch_image\<close>: five element-wise comparisons of header columns, joined
  by \<^verbatim>\<open>&\<close>, give the mask \<open>idx\<close> that indexes the first axis of \<open>data_v\<close>. The key
  is in the order of the parameters: repetition, set, phase, slice, contrast.
\<close>

definition header_mask :: "image_header list \<Rightarrow> coords \<Rightarrow> bool list" where
  "header_mask hs key =
     (case key of (repetition', set', phase', slice', contrast') \<Rightarrow>
        np_and (np_and (np_and (np_and
          (np_eq (map hdr_phase hs) phase')
          (np_eq (map hdr_set hs) set'))
          (np_eq (map hdr_repetition hs) repetition'))
          (np_eq (map hdr_slice hs) slice'))
          (np_eq (map hdr_contrast hs) contrast'))"

definition fetch_image_body :: "viewer \<Rightarrow> coords \<Rightarrow> error + real array5" where
  "fetch_image_body v key =
     (let idx = header_mask (headers (container v)) key in mask_select idx (data_v v))"

text \<open>
  The decorated method: a key already in the table returns the stored result and the body
  does not run; otherwise the body runs, and its result is stored unless it raised.
\<close>

definition fetch_image :: "viewer \<Rightarrow> coords \<Rightarrow> (error + real array5) \<times> viewer" where
  "fetch_image v key =
     (case cache v key of
        Some r \<Rightarrow> (Inr r, v)
      | None \<Rightarrow>
          (case fetch_image_body v key of
             Inl e \<Rightarrow> (Inl e, v\<lparr>scans := scans v + 1\<rparr>)
           | Inr r \<Rightarrow> (Inr r, v\<lparr>cache := (cache v)(key \<mapsto> r), scans := scans v + 1\<rparr>)))"

text \<open>Every entry of the table is what the body returns for its key.\<close>

definition cache_ok :: "viewer \<Rightarrow> bool" where
  "cache_ok v = (\<forall>key r. cache v key = Some r \<longrightarrow> fetch_image_body v key = Inr r)"

section \<open>Picking and displaying the current frame\<close>

text \<open>
  A method that reads the cache returns its result and the viewer after the call; the
  methods are chained with \<open>bind_se\<close>, which stops at the first exception.
\<close>

definition bind_se ::
  "(error + 'a) \<times> viewer \<Rightarrow> ('a \<Rightarrow> viewer \<Rightarrow> (error + 'b) \<times> viewer) \<Rightarrow> (error + 'b) \<times> viewer" where
  "bind_se rv f = (case rv of (Inl e, v) \<Rightarrow> (Inl e, v) | (Inr x, v) \<Rightarrow> f x v)"

text \<open>The pick \<^verbatim>\<open>[self.frame()][self.coil()][0]\<close> of line 473.\<close>

definition pick :: "'a array5 \<Rightarrow> int \<Rightarrow> int \<Rightarrow> error + 'a list list" where
  "pick arr instance channel =
     bind_err (getitem arr instance) (\<lambda>rec.
     bind_err (getitem rec channel) (\<lambda>vol. getitem vol 0))"

definition geometry :: "viewer \<Rightarrow> real list list \<Rightarrow> real list list" where
  "geometry v im =
     (let im1 = (if fliph v then flip_axis1 im else im);
          im2 = (if flipv v then flip_axis0 im1 else im1)
      in rot90 (nrot v) im2)"

definition current_frame :: "viewer \<Rightarrow> (error + real list list) \<times> viewer" where
  "current_frame v =
     bind_se (fetch_image v (repetition v, set_v v, phase v, slice v, contrast v))
       (\<lambda>arr v'. (bind_err (pick arr (frame v) (coil v)) (\<lambda>im. Inr (geometry v im)), v'))"

text \<open>Lines 454 to 459.\<close>

definition window_level :: "viewer \<Rightarrow> npfloat \<times> npfloat" where
  "window_level v =
     (level v * range_v v - window v / 2 * range_v v + min_v v,
      level v * range_v v + window v / 2 * range_v v + min_v v)"

text \<open>
  \<^verbatim>\<open>update_image\<close>: the colour limits are computed first, then the frame; the label is
  read from the header at a position computed from the selection.
\<close>

definition update_image :: "viewer \<Rightarrow> (error + unit) \<times> viewer" where
  "update_image v =
     (let wl = window_level v in
      bind_se (current_frame v) (\<lambda>im v1.
        let v2 = v1\<lparr>image_v := Some (im, wl)\<rparr>;
            pos = frame v2 * repetition v2 * set_v v2 * phase v2
                  + repetition v2 * set_v v2 * phase v2 + set_v v2 * phase v2 + phase v2
        in case getitem (headers (container v2)) pos of
             Inl e \<Rightarrow> (Inl e, v2)
           | Inr idx \<Rightarrow>
               (Inr (), v2\<lparr>label := Some (hdr_average idx, hdr_slice idx, hdr_contrast idx,
                                           phase v2, hdr_repetition idx, set_v v2)\<rparr>)))"

text \<open>\<^verbatim>\<open>update_wl\<close>: only the colour limits of the displayed image change.\<close>

definition update_wl :: "viewer \<Rightarrow> (error + unit) \<times> viewer" where
  "update_wl v =
     (case image_v v of
        None \<Rightarrow> (Inl AttributeError, v)
      | Some (im, lo, hi) \<Rightarrow> (Inr (), v\<lparr>image_v := Some (im, window_level v)\<rparr>))"

section \<open>Transform state\<close>

definition rotate_cw :: "viewer \<Rightarrow> (error + unit) \<times> viewer" where
  "rotate_cw v = update_image (v\<lparr>nrot := (nrot v + 1) mod 4\<rparr>)"

definition rotate_ccw :: "viewer \<Rightarrow> (error + unit) \<times> viewer" where
  "rotate_ccw v = update_image (v\<lparr>nrot := (nrot v - 1) mod 4\<rparr>)"

definition flip_h :: "viewer \<Rightarrow> (error + unit) \<times> viewer" where
  "flip_h v = update_image (v\<lparr>fliph := \<not> fliph v\<rparr>)"

definition flip_v :: "viewer \<Rightarrow> (error + unit) \<times> viewer" where
  "flip_v v = update_image (v\<lparr>flipv := \<not> flipv v\<rparr>)"

text \<open>
  Lines 273 to 281: the spin boxes show window and level scaled by the range. The value
  of a spin box is a finite float; the range is a numpy scalar, so the division raises
  nothing, whatever the range.
\<close>

definition window_input :: "real \<Rightarrow> viewer \<Rightarrow> (error + unit) \<times> viewer" where
  "window_input val v = update_wl (v\<lparr>window := Fin val / range_v v\<rparr>)"

definition level_input :: "real \<Rightarrow> viewer \<Rightarrow> (error + unit) \<times> viewer" where
  "level_input val v = update_wl (v\<lparr>level := Fin val / range_v v\<rparr>)"

text \<open>
  Lines 301 to 333. The first move event of a drag only records the position. The two
  spin boxes that show the scaled values are written with their signals blocked; they are
  not part of the model.
\<close>

definition mouseMoveEvent :: "real \<times> real \<Rightarrow> viewer \<Rightarrow> (error + unit) \<times> viewer" where
  "mouseMoveEvent pos v =
     (case pos of (newx, newy) \<Rightarrow>
        (case mloc v of
           None \<Rightarrow> (Inr (), v\<lparr>mloc := Some (newx, newy)\<rparr>)
         | Some (mx, my) \<Rightarrow>
             let v1 = v\<lparr>window := window v - Fin ((newx - mx) * 0.01)\<rparr>;
                 v2 = v1\<lparr>level := level v1 - Fin ((newy - my) * 0.01)\<rparr>;
                 v3 = (if window v2 < 0 then v2\<lparr>window := 0\<rparr> else v2);
                 v4 = (if window v3 > 2 then v3\<lparr>window := 2\<rparr> else v3);
                 v5 = (if level v4 < 0 then v4\<lparr>level := 0\<rparr> else v4);
                 v6 = (if level v5 > 1 then v5\<lparr>level := 1\<rparr> else v5);
                 v7 = v6\<lparr>mloc := Some (newx, newy)\<rparr>
             in update_wl v7))"

definition mouseReleaseEvent :: "viewer \<Rightarrow> viewer" where
  "mouseReleaseEvent v = v\<lparr>mloc := None\<rparr>"

section \<open>Contrast defaults\<close>

text \<open>
  \<^verbatim>\<open>min()\<close> and \<^verbatim>\<open>max()\<close> of an array raise on an empty array; \<^verbatim>\<open>np.percentile\<close>
  interpolates linearly between the two nearest ranks of the sorted, flattened array.
\<close>

definition np_min :: "real list \<Rightarrow> error + real" where
  "np_min xs = (case xs of [] \<Rightarrow> Inl ValueError | x # ys \<Rightarrow> Inr (fold min ys x))"

definition np_max :: "real list \<Rightarrow> error + real" where
  "np_max xs = (case xs of [] \<Rightarrow> Inl ValueError | x # ys \<Rightarrow> Inr (fold max ys x))"

definition percentile :: "real list \<Rightarrow> real \<Rightarrow> real" where
  "percentile xs q =
     (let s = sort xs; n = length s;
          pos = q / 100 * real (n - 1);
          lo = nat \<lfloor>pos\<rfloor>; hi = min (lo + 1) (n - 1);
          g = pos - real lo
      in s ! lo + (s ! hi - s ! lo) * g)"

text \<open>
  Lines 190 to 198 of the constructor. Each of the four reads of the current frame goes
  through the cache. No statement tests the range before the two divisions.
\<close>

definition init_window_level :: "viewer \<Rightarrow> (error + unit) \<times> viewer" where
  "init_window_level v =
     bind_se (current_frame v) (\<lambda>f1 v1.
     bind_se (np_min (concat f1), v1) (\<lambda>lo v1.
     bind_se (current_frame (v1\<lparr>min_v := Fin lo\<rparr>)) (\<lambda>f2 v2.
     bind_se (np_max (concat f2), v2) (\<lambda>hi v2.
     let v3 = v2\<lparr>max_v := Fin hi\<rparr>; v4 = v3\<lparr>range_v := max_v v3 - min_v v3\<rparr> in
     bind_se (current_frame v4) (\<lambda>f3 v5.
     bind_se (current_frame v5) (\<lambda>f4 v6.
     let p2 = Fin (percentile (concat f3) 2); p98 = Fin (percentile (concat f4) 98);
         v7 = v6\<lparr>window := (p98 - p2) / range_v v6\<rparr>
     in (Inr (), v7\<lparr>level := (p98 + p2) / 2 / range_v v7\<rparr>)))))))"

section \<open>Navigation controls and animation\<close>

text \<open>
  Lines 36 to 40: the cardinality of a header axis is its largest value plus one;
  \<^verbatim>\<open>np.max\<close> raises on an empty column. The header fields are unsigned 16-bit
  numbers, from 0 to 65535, and with NumPy 2 the sum stays in that type: at 65535 it
  wraps to 0.
\<close>

definition cardinality :: "int list \<Rightarrow> error + int" where
  "cardinality col =
     (case col of [] \<Rightarrow> Inl ValueError | x # xs \<Rightarrow> Inr ((fold max xs x + 1) mod 65536))"

text \<open>
  Line 42. The five cardinalities are Python integers by then, so each \<^verbatim>\<open>/\<close> is the
  division of Python, which gives a float and raises on a zero divisor; \<^verbatim>\<open>int\<close>
  truncates toward zero. The number of images is the number of headers.
\<close>

definition py_truediv :: "real \<Rightarrow> int \<Rightarrow> error + real" where
  "py_truediv a b = (if b = 0 then Inl ZeroDivisionError else Inr (a / real_of_int b))"

definition py_int :: "real \<Rightarrow> int" where
  "py_int a = (if 0 \<le> a then \<lfloor>a\<rfloor> else \<lceil>a\<rceil>)"

record counts =
  nimg :: int
  nrep :: int
  nset :: int
  nphase :: int
  nslice :: int
  ncontrast :: int

definition count_axes :: "container \<Rightarrow> error + counts" where
  "count_axes c =
     (let hs = headers c in
      bind_err (cardinality (map hdr_phase hs)) (\<lambda>p.
      bind_err (cardinality (map hdr_set hs)) (\<lambda>s.
      bind_err (cardinality (map hdr_repetition hs)) (\<lambda>r.
      bind_err (cardinality (map hdr_slice hs)) (\<lambda>sl.
      bind_err (cardinality (map hdr_contrast hs)) (\<lambda>co.
      bind_err (py_truediv (real (length hs)) p) (\<lambda>q1.
      bind_err (py_truediv q1 s) (\<lambda>q2.
      bind_err (py_truediv q2 r) (\<lambda>q3.
      bind_err (py_truediv q3 sl) (\<lambda>q4.
      bind_err (py_truediv q4 co) (\<lambda>q5.
        Inr \<lparr>nimg = py_int q5, nrep = r, nset = s, nphase = p, nslice = sl,
             ncontrast = co\<rparr>)))))))))))"

text \<open>
  Lines 52 to 76: a new \<^verbatim>\<open>QSpinBox\<close> has the range 0 to 99 and the value 0; every
  widget is enabled and visible, the Instance button is the checked one, the animation
  button is not checked and shows the play icon.
\<close>

definition new_spinbox :: spinbox where
  "new_spinbox = \<lparr>enabled = True, visible = True, minimum = 0, maximum = 99, value_sb = 0\<rparr>"

definition new_controls :: "viewer \<Rightarrow> viewer" where
  "new_controls v =
     v\<lparr>selected := (\<lambda>d. new_spinbox),
       dim_buttons := (\<lambda>d. \<lparr>enabled = True, visible = True\<rparr>),
       checkedButton := Instance,
       animate := \<lparr>enabled = True, visible = True, checked = False, icon_b = SP_MediaPlay\<rparr>\<rparr>"

text \<open>
  \<^verbatim>\<open>QSpinBox.setMaximum\<close> lowers the minimum if needed and keeps the value in range.
\<close>

definition setMaximum :: "int \<Rightarrow> spinbox \<Rightarrow> spinbox" where
  "setMaximum m sb =
     (let lo = min (minimum sb) m
      in sb\<lparr>minimum := lo, maximum := m, value_sb := max lo (min m (value_sb sb))\<rparr>)"

text \<open>
  Lines 65 to 70: the spin box of the Instance axis gets the maximum \<^verbatim>\<open>nimg - 1\<close>, that
  of each header axis its cardinality minus one. Where \<^verbatim>\<open>setMaximum\<close> changes the value
  of a spin box, the signal reaches \<^verbatim>\<open>update_image\<close> before the viewer has an image;
  the exception this ends in is printed by the Qt binding and dropped, and the model
  leaves the call out.
\<close>

definition set_maxima :: "viewer \<Rightarrow> error + viewer" where
  "set_maxima v =
     bind_err (count_axes (container v)) (\<lambda>n.
        Inr (v\<lparr>selected := (selected v)
               (Instance := setMaximum (nimg n - 1) (selected v Instance),
                Phase := setMaximum (nphase n - 1) (selected v Phase),
                Set := setMaximum (nset n - 1) (selected v Set),
                Repetition := setMaximum (nrep n - 1) (selected v Repetition),
                Slice := setMaximum (nslice n - 1) (selected v Slice),
                Contrast := setMaximum (ncontrast n - 1) (selected v Contrast))\<rparr>))"

text \<open>
  Lines 184 and 185. The counts are attributes that the constructor computes once from
  the headers, which never change afterwards; the model computes them again from the
  container where the source reads the attributes.
\<close>

definition disable_single :: "viewer \<Rightarrow> error + viewer" where
  "disable_single v =
     bind_err (count_axes (container v)) (\<lambda>n.
        Inr (if nimg n = 1 then v\<lparr>animate := (animate v)\<lparr>enabled := False\<rparr>\<rparr> else v))"

text \<open>
  Line 205. A selection of images keeps the length of the channel axis of \<^verbatim>\<open>data_\<close>;
  the model reads it from the first stored image, since a nested list with no image has
  no second axis.
\<close>

definition shape1 :: "'a list list \<Rightarrow> int" where
  "shape1 arr = (case arr of [] \<Rightarrow> 0 | r # rs \<Rightarrow> int (length r))"

definition set_channel_maximum :: "viewer \<Rightarrow> (error + unit) \<times> viewer" where
  "set_channel_maximum v =
     bind_se (fetch_image v (repetition v, set_v v, phase v, slice v, contrast v))
       (\<lambda>arr v1. (Inr (), v1\<lparr>selected := (selected v1)
            (Channel := setMaximum (shape1 (data_v v1) - 1) (selected v1 Channel))\<rparr>))"

text \<open>Lines 208 to 214: the controls of an axis whose spin box has maximum 0 are switched off.\<close>

fun disable_singletons :: "dim list \<Rightarrow> viewer \<Rightarrow> viewer" where
  "disable_singletons [] v = v"
| "disable_singletons (d # ds) v =
     disable_singletons ds
       (if maximum (selected v d) = 0
        then v\<lparr>dim_buttons := (dim_buttons v)
                   (d := (dim_buttons v d)\<lparr>enabled := False, visible := False\<rparr>),
               selected := (selected v)
                   (d := (selected v d)\<lparr>enabled := False, visible := False\<rparr>)\<rparr>
        else v)"

text \<open>
  The statements of the constructor that set up the navigation controls, in their order:
  lines 36 to 76, 184 and 185, 200 to 214. The contrast defaults of lines 190 to 198 lie
  between them and leave the controls as they are.
\<close>

definition init_controls :: "viewer \<Rightarrow> (error + unit) \<times> viewer" where
  "init_controls v =
     (case bind_err (set_maxima (new_controls v)) disable_single of
        Inl e \<Rightarrow> (Inl e, v)
      | Inr v1 \<Rightarrow>
          bind_se (set_channel_maximum (v1\<lparr>mloc := None, timer := None\<rparr>))
            (\<lambda>u v2. (Inr (), disable_singletons DIMS v2)))"

text \<open>
  \<^verbatim>\<open>QSpinBox.setValue\<close> bounds the value by the range of the spin box; a changed value is
  signalled to \<^verbatim>\<open>update_image\<close>.
\<close>

definition setValue :: "dim \<Rightarrow> int \<Rightarrow> viewer \<Rightarrow> (error + unit) \<times> viewer" where
  "setValue d x v =
     (let sb = selected v d; x' = max (minimum sb) (min (maximum sb) x)
      in if x' = value_sb sb then (Inr (), v)
         else update_image (v\<lparr>selected := (selected v)(d := sb\<lparr>value_sb := x'\<rparr>)\<rparr>))"

text \<open>Lines 550 and 551; \<^verbatim>\<open>fps\<close> is a Python float, whose division by zero raises.\<close>

definition set_timer_interval :: "real \<Rightarrow> viewer \<Rightarrow> error + viewer" where
  "set_timer_interval fps v =
     (if fps = 0 then Inl ZeroDivisionError else Inr (v\<lparr>timer_interval := 1000 / fps\<rparr>))"

text \<open>
  The closure \<^verbatim>\<open>increment\<close> of lines 579 to 583, for the axis it captured. The
  operator \<^verbatim>\<open>%\<close> on Python integers raises on a zero modulus, and its result has the sign
  of the modulus, as \<open>mod\<close> on \<open>int\<close> has.
\<close>

definition increment :: "dim \<Rightarrow> viewer \<Rightarrow> (error + unit) \<times> viewer" where
  "increment d v =
     (let x = value_sb (selected v d); m = maximum (selected v d)
      in if m = 0 then (Inl ZeroDivisionError, v) else setValue d ((x + 1) mod m) v)"

text \<open>A tick of the running timer calls the closure.\<close>

definition timeout :: "viewer \<Rightarrow> (error + unit) \<times> viewer" where
  "timeout v = (case timer v of None \<Rightarrow> (Inr (), v) | Some t \<Rightarrow> increment (dimName t) v)"

text \<open>Lines 553 to 588, the handler of a click on the animation button.\<close>

definition animate_frames :: "viewer \<Rightarrow> viewer" where
  "animate_frames v =
     (if \<not> checked (animate v)
      then (let v1 = (case timer v of Some t \<Rightarrow> v\<lparr>timer := None\<rparr> | None \<Rightarrow> v)
            in v1\<lparr>animate := (animate v1)\<lparr>icon_b := SP_MediaPlay\<rparr>\<rparr>)
      else
        let d = checkedButton v;
            v1 = v\<lparr>animate := (animate v)\<lparr>icon_b := SP_MediaPause\<rparr>\<rparr>
        in if maximum (selected v1 d) = 0
           then (let v2 = v1\<lparr>log_v := log_v v1 @ [''Cannot animate singleton dimension.'']\<rparr>
                 in v2\<lparr>animate := (animate v2)\<lparr>checked := False\<rparr>\<rparr>)
           else v1\<lparr>timer := Some \<lparr>interval = timer_interval v1, dimName = d\<rparr>\<rparr>)"

text \<open>
  Lines 250 to 262. The id of a button is its position in \<open>DIMS\<close> (line 58).
  \<^verbatim>\<open>image_shape\<close> reads the frame index four times; \<^verbatim>\<open>check_dim\<close> reads one of the
  entries 0 to 6 of the tuple, and the model leaves out the last three.
\<close>

definition dim_id :: "dim \<Rightarrow> nat" where
  "dim_id d = (case d of Instance \<Rightarrow> 0 | Repetition \<Rightarrow> 1 | Set \<Rightarrow> 2 | Phase \<Rightarrow> 3
                | Channel \<Rightarrow> 4 | Slice \<Rightarrow> 5 | Contrast \<Rightarrow> 6)"

definition image_shape :: "viewer \<Rightarrow> (error + int list) \<times> viewer" where
  "image_shape v =
     (case count_axes (container v) of
        Inl e \<Rightarrow> (Inl e, v)
      | Inr n \<Rightarrow>
          bind_se (fetch_image v (repetition v, set_v v, phase v, slice v, contrast v)) (\<lambda>a1 v1.
          bind_se (fetch_image v1 (repetition v1, set_v v1, phase v1, slice v1, contrast v1)) (\<lambda>a2 v2.
          bind_se (fetch_image v2 (repetition v2, set_v v2, phase v2, slice v2, contrast v2)) (\<lambda>a3 v3.
          bind_se (fetch_image v3 (repetition v3, set_v v3, phase v3, slice v3, contrast v3)) (\<lambda>a4 v4.
            (Inr [nimg n, nrep n, nset n, nphase n, nslice n, ncontrast n, shape1 (data_v v4)],
             v4))))))"

definition check_dim :: "viewer \<Rightarrow> (error + unit) \<times> viewer" where
  "check_dim v =
     bind_se (image_shape v) (\<lambda>shape v1.
       update_image
         (v1\<lparr>animate := (animate v1)\<lparr>enabled := (1 < shape ! dim_id (checkedButton v1))\<rparr>\<rparr>))"

text \<open>
  The two tests \<^verbatim>\<open>if x < lo: x = lo\<close> and \<^verbatim>\<open>if x > hi: x = hi\<close> of lines 314 to 322,
  in this order, as one function: it is used to state what a drag stores.
\<close>

definition clip :: "npfloat \<Rightarrow> npfloat \<Rightarrow> npfloat \<Rightarrow> npfloat" where
  "clip lo hi x = (let y = (if x < lo then lo else x) in if hi < y then hi else y)"

section \<open>Relating viewers with the same frame index\<close>

text \<open>
  \<open>same_index v v'\<close>: the two viewers hold the same data, and the table of \<open>v'\<close> is
  that of \<open>v\<close>, possibly with results of the body added.
\<close>

definition same_index :: "viewer \<Rightarrow> viewer \<Rightarrow> bool" where
  "same_index v v' =
     (container v' = container v \<and> data_v v' = data_v v \<and>
      (\<forall>k. cache v' k = cache v k \<or>
           (cache v k = None \<and> (\<exists>r. fetch_image_body v k = Inr r \<and> cache v' k = Some r))))"

section \<open>A small data set\<close>

text \<open>
  Six images of one channel and two by two pixels: three slices, two instances of each.
  \<open>ex_viewer\<close> is a viewer on it as the constructor leaves it, with the table of
  \<^verbatim>\<open>fetch_image\<close> still empty.
\<close>

definition ex_header :: "int \<Rightarrow> image_header" where
  "ex_header s = \<lparr>hdr_phase = 0, hdr_set = 0, hdr_repetition = 0, hdr_slice = s,
                  hdr_contrast = 0, hdr_average = 0\<rparr>"

definition ex_raw :: "real array5" where
  "ex_raw =
     [[[[[1, 2], [3, 4]]]], [[[[5, 6], [7, 8]]]], [[[[9, 10], [11, 12]]]],
      [[[[13, 14], [15, 16]]]], [[[[17, 18], [19, 20]]]], [[[[21, 22], [23, 24]]]]]"

definition ex_container :: container where
  "ex_container =
     \<lparr>headers = [ex_header 0, ex_header 1, ex_header 2, ex_header 0, ex_header 1, ex_header 2],
      data = RealData ex_raw\<rparr>"

definition ex_spinbox :: "int \<Rightarrow> spinbox" where
  "ex_spinbox m = \<lparr>enabled = m \<noteq> 0, visible = m \<noteq> 0, minimum = 0, maximum = m, value_sb = 0\<rparr>"

definition ex_maximum :: "dim \<Rightarrow> int" where
  "ex_maximum d = (if d = Instance then 1 else if d = Slice then 2 else 0)"

definition ex_viewer :: viewer where
  "ex_viewer =
     \<lparr>container = ex_container,
      data_v = load_data ex_container,
      selected = (\<lambda>d. ex_spinbox (ex_maximum d)),
      dim_buttons = (\<lambda>d. \<lparr>enabled = ex_maximum d \<noteq> 0, visible = ex_maximum d \<noteq> 0\<rparr>),
      checkedButton = Instance,
      animate = \<lparr>enabled = True, visible = True, checked = False, icon_b = SP_MediaPlay\<rparr>,
      nrot = 0, fliph = False, flipv = False,
      min_v = 1, max_v = 4, range_v = 3,
      window = 24 / 25, level = 5 / 6,
      mloc = None, timer = None, timer_interval = 100,
      image_v = Some ([[4, 2], [3, 1]], 103 / 50, 247 / 50),
      label = Some (0, 0, 0, 0, 0, 0),
      log_v = [],
      cache = Map.empty,
      scans = 0\<rparr>"

text \<open>
  A sparse data set of two images: no image has repetition 0 and slice 1. The formula of
  line 42 gives zero instances, so the Instance spin box has the range from -1 to -1.
\<close>

definition sp_header :: "int \<Rightarrow> int \<Rightarrow> image_header" where
  "sp_header r s = \<lparr>hdr_phase = 0, hdr_set = 0, hdr_repetition = r, hdr_slice = s,
                    hdr_contrast = 0, hdr_average = 0\<rparr>"

definition sp_container :: container where
  "sp_container =
     \<lparr>headers = [sp_header 0 0, sp_header 1 1],
      data = RealData [[[[[1, 2], [3, 4]]]], [[[[5, 6], [7, 8]]]]]\<rparr>"

definition sp_selected :: "dim \<Rightarrow> spinbox" where
  "sp_selected d =
     (if d = Instance
      then \<lparr>enabled = True, visible = True, minimum = - 1, maximum = - 1, value_sb = - 1\<rparr>
      else if d = Slice then (ex_spinbox 1)\<lparr>value_sb := 1\<rparr>
      else if d = Repetition then ex_spinbox 1
      else ex_spinbox 0)"

definition sp_viewer :: viewer where
  "sp_viewer = ex_viewer\<lparr>container := sp_container, data_v := load_data sp_container,
                         selected := sp_selected\<rparr>"

text \<open>The spin boxes of the sparse data set after lines 65 to 70.\<close>

definition sp_boxes :: "dim \<Rightarrow> spinbox" where
  "sp_boxes = (\<lambda>d. new_spinbox)
       (Instance := \<lparr>enabled = True, visible = True, minimum = - 1, maximum = - 1, value_sb = - 1\<rparr>,
        Phase := \<lparr>enabled = True, visible = True, minimum = 0, maximum = 0, value_sb = 0\<rparr>,
        Set := \<lparr>enabled = True, visible = True, minimum = 0, maximum = 0, value_sb = 0\<rparr>,
        Repetition := \<lparr>enabled = True, visible = True, minimum = 0, maximum = 1, value_sb = 0\<rparr>,
        Slice := \<lparr>enabled = True, visible = True, minimum = 0, maximum = 1, value_sb = 0\<rparr>,
        Contrast := \<lparr>enabled = True, visible = True, minimum = 0, maximum = 0, value_sb = 0\<rparr>)"

text \<open>
  The sparse data set with the controls as the constructor sets them up, and then with
  the animation button just checked by a click.
\<close>

definition sp_built :: viewer where
  "sp_built = snd (init_controls sp_viewer)"

definition sp_click :: viewer where
  "sp_click = sp_built\<lparr>animate := (animate sp_built)\<lparr>checked := True\<rparr>\<rparr>"

text \<open>
  The small data set with every pixel equal to 7, as lines 190 to 198 and the first
  \<^verbatim>\<open>update_image\<close> leave it.
\<close>

definition flat_container :: container where
  "flat_container = ex_container\<lparr>data := RealData (replicate 6 [[[[7, 7], [7, 7]]]])\<rparr>"

definition flat_viewer :: viewer where
  "flat_viewer = ex_viewer\<lparr>container := flat_container, data_v := load_data flat_container,
                           min_v := 7, max_v := 7, range_v := 0,
                           window := NaN, level := PosInf,
                           image_v := Some ([[7, 7], [7, 7]], NaN, NaN)\<rparr>"

text \<open>
  The small data set with slice 1 shown, the Slice axis selected and the animation button
  just checked by a click.
\<close>

definition ex_tick :: viewer where
  "ex_tick = ex_viewer\<lparr>selected := (selected ex_viewer)(Slice := (ex_spinbox 2)\<lparr>value_sb := 1\<rparr>),
                        checkedButton := Slice,
                        animate := (animate ex_viewer)\<lparr>checked := True\<rparr>\<rparr>"

section \<open>Properties of the frame index\<close>

lemma np_and_map: "np_and (map f xs) (map g xs) = map (\<lambda>x. f x \<and> g x) xs"
  by (simp add: np_and_def zip_map_map zip_same_conv_map)

lemma np_eq_map: "np_eq (map f xs) c = map (\<lambda>x. f x = c) xs"
  by (simp add: np_eq_def)

lemma mask_zip_nth:
  assumes "length xs = length ys"
  shows "map snd (filter fst (zip (map P xs) ys))
         = map ((!) ys) (filter (\<lambda>i. P (xs ! i)) [0..<length ys])"
proof -
  have z: "zip (map P xs) ys = map (\<lambda>i. (P (xs ! i), ys ! i)) [0..<length ys]"
    using assms by (intro nth_equalityI) auto
  show ?thesis
    unfolding z by (simp add: filter_map o_def)
qed

lemma fetch_image_body_eq:
  assumes "length (headers (container v)) = length (data_v v)"
  shows "fetch_image_body v (r, s, p, sl, c) =
     Inr (map ((!) (data_v v))
            (filter (\<lambda>i. hdr_phase (headers (container v) ! i) = p \<and>
                          hdr_set (headers (container v) ! i) = s \<and>
                          hdr_repetition (headers (container v) ! i) = r \<and>
                          hdr_slice (headers (container v) ! i) = sl \<and>
                          hdr_contrast (headers (container v) ! i) = c)
               [0..<length (data_v v)]))"
  using assms mask_zip_nth [of "headers (container v)" "data_v v"
      "\<lambda>h. hdr_phase h = p \<and> hdr_set h = s \<and> hdr_repetition h = r \<and> hdr_slice h = sl \<and> hdr_contrast h = c"]
  by (simp add: fetch_image_body_def header_mask_def np_eq_map np_and_map mask_select_def)

lemma fetch_image_body_cong:
  "container v' = container v \<Longrightarrow> data_v v' = data_v v \<Longrightarrow>
   fetch_image_body v' k = fetch_image_body v k"
  by (simp add: fetch_image_body_def)

lemma same_index_refl: "same_index v v"
  by (simp add: same_index_def)

lemma same_index_cache:
  "same_index v v' \<Longrightarrow>
   cache v' k = cache v k \<or>
   (cache v k = None \<and> (\<exists>r. fetch_image_body v k = Inr r \<and> cache v' k = Some r))"
  unfolding same_index_def by blast

lemma same_index_body:
  assumes "same_index v v'"
  shows "fetch_image_body v' k = fetch_image_body v k"
proof (rule fetch_image_body_cong)
  show "container v' = container v" using assms unfolding same_index_def by blast
  show "data_v v' = data_v v" using assms unfolding same_index_def by blast
qed

lemma same_index_trans:
  assumes "same_index a b" and "same_index b c"
  shows "same_index a c"
  unfolding same_index_def
proof (intro conjI allI)
  show "container c = container a" using assms unfolding same_index_def by simp
  show "data_v c = data_v a" using assms unfolding same_index_def by simp
  fix k
  note ab = same_index_cache [OF assms(1), of k]
  note bc = same_index_cache [OF assms(2), of k]
  from ab bc show "cache c k = cache a k \<or>
      (cache a k = None \<and> (\<exists>r. fetch_image_body a k = Inr r \<and> cache c k = Some r))"
    unfolding same_index_body [OF assms(1)] by auto
qed

lemma same_index_fetch:
  assumes "same_index v v'"
  shows "fst (fetch_image v' k) = fst (fetch_image v k)"
proof (cases "cache v k")
  case None
  with same_index_cache [OF assms, of k] show ?thesis
    by (auto simp: fetch_image_def same_index_body [OF assms] split: sum.splits)
next
  case (Some r)
  with same_index_cache [OF assms, of k] have "cache v' k = Some r" by simp
  with Some show ?thesis by (simp add: fetch_image_def)
qed

lemma fetch_image_same: "same_index v (snd (fetch_image v k))"
  by (auto simp: fetch_image_def same_index_def split: option.splits sum.splits)

lemma fetch_image_keeps:
  "selected (snd (fetch_image v k)) = selected v"
  "nrot (snd (fetch_image v k)) = nrot v"
  "fliph (snd (fetch_image v k)) = fliph v"
  "flipv (snd (fetch_image v k)) = flipv v"
  "window (snd (fetch_image v k)) = window v"
  "level (snd (fetch_image v k)) = level v"
  "range_v (snd (fetch_image v k)) = range_v v"
  "min_v (snd (fetch_image v k)) = min_v v"
  "max_v (snd (fetch_image v k)) = max_v v"
  "image_v (snd (fetch_image v k)) = image_v v"
  "timer (snd (fetch_image v k)) = timer v"
  "animate (snd (fetch_image v k)) = animate v"
  "mloc (snd (fetch_image v k)) = mloc v"
  by (simp_all add: fetch_image_def split: option.splits sum.splits)

lemma fetch_image_controls:
  "dim_buttons (snd (fetch_image v k)) = dim_buttons v"
  "checkedButton (snd (fetch_image v k)) = checkedButton v"
  "log_v (snd (fetch_image v k)) = log_v v"
  "timer_interval (snd (fetch_image v k)) = timer_interval v"
  "container (snd (fetch_image v k)) = container v"
  "data_v (snd (fetch_image v k)) = data_v v"
  by (simp_all add: fetch_image_def split: option.splits sum.splits)

lemma snd_bind_se_pure:
  "snd (bind_se rv (\<lambda>x v'. (g x, v'))) = snd rv"
  by (cases rv) (auto simp: bind_se_def split: sum.splits)

lemma current_frame_snd:
  "snd (current_frame v) = snd (fetch_image v (repetition v, set_v v, phase v, slice v, contrast v))"
  by (simp add: current_frame_def snd_bind_se_pure)

lemma current_frame_same: "same_index v (snd (current_frame v))"
  by (simp add: current_frame_snd fetch_image_same)

lemma current_frame_fst:
  "fst (current_frame v) =
     bind_err (fst (fetch_image v (repetition v, set_v v, phase v, slice v, contrast v)))
       (\<lambda>arr. bind_err (pick arr (frame v) (coil v)) (\<lambda>im. Inr (geometry v im)))"
  by (cases "fetch_image v (repetition v, set_v v, phase v, slice v, contrast v)")
     (auto simp: current_frame_def bind_se_def bind_err_def split: sum.splits)

lemma update_image_snd:
  "\<exists>im lb. snd (update_image v) = snd (current_frame v) \<or>
     snd (update_image v) = (snd (current_frame v))\<lparr>image_v := im\<rparr> \<or>
     snd (update_image v) = (snd (current_frame v))\<lparr>image_v := im, label := lb\<rparr>"
  by (cases "current_frame v")
     (auto simp: update_image_def bind_se_def Let_def split: sum.splits)

lemma same_index_upd:
  "same_index v (v\<lparr>image_v := im\<rparr>)"
  "same_index v (v\<lparr>image_v := im, label := lb\<rparr>)"
  "same_index v (v\<lparr>nrot := n\<rparr>)"
  "same_index v (v\<lparr>fliph := b\<rparr>)"
  "same_index v (v\<lparr>flipv := b\<rparr>)"
  "same_index v (v\<lparr>window := w\<rparr>)"
  "same_index v (v\<lparr>level := w\<rparr>)"
  "same_index v (v\<lparr>mloc := ml\<rparr>)"
  "same_index v (v\<lparr>selected := sel\<rparr>)"
  unfolding same_index_def by simp_all

lemma update_image_same: "same_index v (snd (update_image v))"
proof -
  obtain im lb where "snd (update_image v) = snd (current_frame v) \<or>
     snd (update_image v) = (snd (current_frame v))\<lparr>image_v := im\<rparr> \<or>
     snd (update_image v) = (snd (current_frame v))\<lparr>image_v := im, label := lb\<rparr>"
    using update_image_snd by blast
  then have "same_index (snd (current_frame v)) (snd (update_image v))"
    by (auto simp: same_index_refl same_index_upd)
  with current_frame_same show ?thesis by (rule same_index_trans)
qed

lemma update_image_keeps:
  "selected (snd (update_image v)) = selected v"
  "nrot (snd (update_image v)) = nrot v"
  "fliph (snd (update_image v)) = fliph v"
  "flipv (snd (update_image v)) = flipv v"
  "window (snd (update_image v)) = window v"
  "level (snd (update_image v)) = level v"
  "range_v (snd (update_image v)) = range_v v"
  "min_v (snd (update_image v)) = min_v v"
  "timer (snd (update_image v)) = timer v"
  "animate (snd (update_image v)) = animate v"
  "mloc (snd (update_image v)) = mloc v"
  using update_image_snd [of v]
  by (auto simp: current_frame_snd fetch_image_keeps)

lemma update_wl_snd:
  "\<exists>im. snd (update_wl v) = v \<or> snd (update_wl v) = v\<lparr>image_v := im\<rparr>"
  by (auto simp: update_wl_def split: option.splits)

lemma update_wl_same: "same_index v (snd (update_wl v))"
  using update_wl_snd [of v] by (auto simp: same_index_refl same_index_upd)

section \<open>Transform state and the current frame\<close>

lemma rot90_mod: "k mod 4 = k' mod 4 \<Longrightarrow> rot90 k m = rot90 k' m"
  by (simp add: rot90_def)

lemma frame_same:
  assumes "same_index v v'" and "selected v' = selected v"
    and "nrot v' mod 4 = nrot v mod 4" and "fliph v' = fliph v" and "flipv v' = flipv v"
  shows "fst (current_frame v') = fst (current_frame v)"
proof -
  have sel: "repetition v' = repetition v" "set_v v' = set_v v" "phase v' = phase v"
    "slice v' = slice v" "contrast v' = contrast v" "frame v' = frame v" "coil v' = coil v"
    using assms(2)
    by (simp_all add: repetition_def set_v_def phase_def slice_def contrast_def frame_def coil_def)
  have geo: "geometry v' = geometry v"
    using assms(3-5) by (auto simp: geometry_def fun_eq_iff Let_def intro: rot90_mod)
  show ?thesis
    by (simp add: current_frame_fst sel geo same_index_fetch [OF assms(1)])
qed

lemma rotate_cw_same: "same_index v (snd (rotate_cw v))"
  unfolding rotate_cw_def
  by (rule same_index_trans [OF same_index_upd(3) update_image_same])

lemma rotate_ccw_same: "same_index v (snd (rotate_ccw v))"
  unfolding rotate_ccw_def
  by (rule same_index_trans [OF same_index_upd(3) update_image_same])

lemma flip_h_same: "same_index v (snd (flip_h v))"
  unfolding flip_h_def
  by (rule same_index_trans [OF same_index_upd(4) update_image_same])

lemma flip_v_same: "same_index v (snd (flip_v v))"
  unfolding flip_v_def
  by (rule same_index_trans [OF same_index_upd(5) update_image_same])

lemma rotate_cw_keeps:
  "selected (snd (rotate_cw v)) = selected v"
  "nrot (snd (rotate_cw v)) = (nrot v + 1) mod 4"
  "fliph (snd (rotate_cw v)) = fliph v"
  "flipv (snd (rotate_cw v)) = flipv v"
  by (simp_all add: rotate_cw_def update_image_keeps)

lemma rotate_ccw_keeps:
  "selected (snd (rotate_ccw v)) = selected v"
  "nrot (snd (rotate_ccw v)) = (nrot v - 1) mod 4"
  "fliph (snd (rotate_ccw v)) = fliph v"
  "flipv (snd (rotate_ccw v)) = flipv v"
  by (simp_all add: rotate_ccw_def update_image_keeps)

lemma flip_h_keeps:
  "selected (snd (flip_h v)) = selected v"
  "nrot (snd (flip_h v)) = nrot v"
  "fliph (snd (flip_h v)) = (\<not> fliph v)"
  "flipv (snd (flip_h v)) = flipv v"
  by (simp_all add: flip_h_def update_image_keeps)

lemma flip_v_keeps:
  "selected (snd (flip_v v)) = selected v"
  "nrot (snd (flip_v v)) = nrot v"
  "fliph (snd (flip_v v)) = fliph v"
  "flipv (snd (flip_v v)) = (\<not> flipv v)"
  by (simp_all add: flip_v_def update_image_keeps)

lemma four_cw: "((((n + 1) mod 4 + 1) mod 4 + 1) mod 4 + 1) mod 4 = (n::int) mod 4"
  by (simp add: mod_simps)

lemma four_ccw: "((((n - 1) mod 4 - 1) mod 4 - 1) mod 4 - 1) mod 4 = (n::int) mod 4"
  by (simp add: mod_simps)

lemma twice_same:
  assumes "\<And>v. same_index v (snd (f v))"
  shows "same_index v (snd (f (snd (f v))))"
  by (rule same_index_trans [OF assms assms])

lemma four_times_same:
  assumes "\<And>v. same_index v (snd (f v))"
  shows "same_index v (snd (f (snd (f (snd (f (snd (f v))))))))"
  by (rule same_index_trans [OF twice_same [of f, OF assms] twice_same [of f, OF assms]])

section \<open>Arithmetic of the floating-point values\<close>

lemma Fin_arith:
  "Fin a + Fin b = Fin (a + b)"
  "Fin a - Fin b = Fin (a - b)"
  "Fin a * Fin b = Fin (a * b)"
  "b \<noteq> 0 \<Longrightarrow> Fin a / Fin b = Fin (a / b)"
  "Fin a / Fin 0 = inf_of a"
  "- Fin a = Fin (- a)"
  "(Fin a < Fin b) = (a < b)"
  "(Fin a \<le> Fin b) = (a \<le> b)"
  "(0 :: npfloat) = Fin 0"
  "(1 :: npfloat) = Fin 1"
  by (simp_all add: plus_npfloat_def minus_npfloat_def uminus_npfloat_def times_npfloat_def
      divide_npfloat_def less_npfloat_def less_eq_npfloat_def zero_npfloat_def one_npfloat_def)

lemma Fin_numeral: "(numeral k :: npfloat) = Fin (numeral k)"
proof (induction k)
  case One
  show ?case by (simp only: numeral.simps(1) one_npfloat_def)
next
  case (Bit0 k)
  have "(numeral (num.Bit0 k) :: npfloat) = numeral k + numeral k"
    by (rule numeral.simps(2))
  also have "\<dots> = Fin (numeral k) + Fin (numeral k)"
    by (simp only: Bit0.IH)
  also have "\<dots> = Fin (numeral k + numeral k)"
    by (rule Fin_arith(1))
  also have "\<dots> = Fin (numeral (num.Bit0 k))"
    by (simp only: numeral.simps(2))
  finally show ?case .
next
  case (Bit1 k)
  have "(numeral (num.Bit1 k) :: npfloat) = numeral k + numeral k + 1"
    by (rule numeral.simps(3))
  also have "\<dots> = Fin (numeral k) + Fin (numeral k) + Fin 1"
    by (simp only: Bit1.IH one_npfloat_def)
  also have "\<dots> = Fin (numeral k + numeral k + 1)"
    by (simp only: Fin_arith(1))
  also have "\<dots> = Fin (numeral (num.Bit1 k))"
    by (simp only: numeral.simps(3))
  finally show ?case .
qed

lemmas Fin_simps = Fin_numeral Fin_arith

lemma inf_of_not_finite: "\<not> isfinite (inf_of s)" "inf_of s \<noteq> Fin a"
  by (simp_all add: inf_of_def isfinite_def)

lemma divide_zero_not_finite: "\<not> isfinite (x / 0)"
  by (cases x)
     (simp_all add: divide_npfloat_def zero_npfloat_def isfinite_def inf_of_def sign_of_def)

lemma times_zero_range:
  "\<not> isfinite x \<Longrightarrow> x / 2 * 0 = NaN"
  by (cases x)
     (simp_all add: divide_npfloat_def times_npfloat_def zero_npfloat_def isfinite_def
        inf_of_def sign_of_def Fin_numeral)

lemma times_zero_level:
  "\<not> isfinite x \<Longrightarrow> x * 0 = NaN"
  by (cases x)
     (simp_all add: times_npfloat_def zero_npfloat_def isfinite_def inf_of_def sign_of_def)

lemma plus_NaN: "x + NaN = NaN" "NaN + x = NaN" "x - NaN = NaN" "NaN - x = NaN"
  by (cases x; simp add: plus_npfloat_def minus_npfloat_def uminus_npfloat_def)+

lemma minus_Fin_NaN: "x - Fin d = NaN \<longleftrightarrow> x = NaN"
  by (cases x) (simp_all add: plus_npfloat_def minus_npfloat_def uminus_npfloat_def)

lemma clip_window: "x \<noteq> NaN \<Longrightarrow> 0 \<le> clip 0 2 x \<and> clip 0 2 x \<le> 2"
  by (cases x) (simp_all add: clip_def Let_def Fin_simps less_npfloat_def less_eq_npfloat_def)

lemma clip_level: "x \<noteq> NaN \<Longrightarrow> 0 \<le> clip 0 1 x \<and> clip 0 1 x \<le> 1"
  by (cases x) (simp_all add: clip_def Let_def Fin_simps less_npfloat_def less_eq_npfloat_def)

lemma clip_NaN: "clip lo hi NaN = NaN"
  by (cases hi) (simp_all add: clip_def Let_def less_npfloat_def)

lemma clip_Fin:
  "clip (Fin lo) (Fin hi) (Fin x) = Fin (if hi < (if x < lo then lo else x) then hi
                                         else if x < lo then lo else x)"
  by (simp add: clip_def Let_def Fin_arith)

section \<open>Window and level inputs\<close>

lemma window_input_same: "same_index v (snd (window_input x v))"
  unfolding window_input_def
  by (rule same_index_trans [OF same_index_upd(6) update_wl_same])

lemma level_input_same: "same_index v (snd (level_input x v))"
  unfolding level_input_def
  by (rule same_index_trans [OF same_index_upd(7) update_wl_same])

lemma same_index_wlm:
  "same_index v (v\<lparr>window := w, level := l, mloc := ml\<rparr>)"
  unfolding same_index_def by simp

lemma mouseMoveEvent_drag:
  assumes "mloc v = Some (mx, my)"
  shows "mouseMoveEvent (newx, newy) v =
           update_wl (v\<lparr>window := clip 0 2 (window v - Fin ((newx - mx) * 0.01)),
                        level := clip 0 1 (level v - Fin ((newy - my) * 0.01)),
                        mloc := Some (newx, newy)\<rparr>)"
  unfolding mouseMoveEvent_def prod.case assms option.case Let_def
  apply (rule arg_cong [where f = update_wl])
  apply (rule viewer.equality)
  apply (simp_all add: clip_def Let_def)
  done

lemma mouseMoveEvent_same: "same_index v (snd (mouseMoveEvent pos v))"
proof (cases pos)
  case (Pair newx newy)
  show ?thesis
  proof (cases "mloc v")
    case None
    with Pair show ?thesis by (simp add: mouseMoveEvent_def same_index_upd)
  next
    case (Some m)
    obtain mx my where m: "m = (mx, my)" by (cases m)
    show ?thesis
      unfolding Pair mouseMoveEvent_drag [OF Some [unfolded m]]
      by (rule same_index_trans [OF same_index_wlm update_wl_same])
  qed
qed

lemma fetch_image_twice:
  assumes "length (headers (container v)) = length (data_v v)"
  shows "\<exists>a. fst (fetch_image v key) = Inr a \<and>
             fetch_image (snd (fetch_image v key)) key = (Inr a, snd (fetch_image v key))"
proof -
  obtain r s p sl c where key: "key = (r, s, p, sl, c)" by (cases key)
  from fetch_image_body_eq [OF assms, of r s p sl c]
  obtain a where body: "fetch_image_body v key = Inr a" unfolding key by blast
  show ?thesis
    by (cases "cache v key") (simp_all add: fetch_image_def body)
qed

lemma getitem_beyond: "int (length xs) \<le> i \<Longrightarrow> getitem xs i = Inl IndexError"
  by (simp add: getitem_def)

lemma update_wl_image:
  "image_v v = Some (im, lo, hi) \<Longrightarrow>
   update_wl v = (Inr (), v\<lparr>image_v := Some (im, window_level v)\<rparr>)"
  by (simp add: update_wl_def)

lemma update_wl_keeps:
  "window (snd (update_wl v)) = window v"
  "level (snd (update_wl v)) = level v"
  "range_v (snd (update_wl v)) = range_v v"
  "min_v (snd (update_wl v)) = min_v v"
  by (auto simp: update_wl_def split: option.splits)

lemma window_level_image: "window_level (v\<lparr>image_v := x\<rparr>) = window_level v"
  by (simp add: window_level_def)

lemma mouseMoveEvent_nan:
  assumes "mloc v = Some (mx, my)"
  shows "window v = NaN \<Longrightarrow> window (snd (mouseMoveEvent (newx, newy) v)) = NaN"
    and "level v = NaN \<Longrightarrow> level (snd (mouseMoveEvent (newx, newy) v)) = NaN"
  by (simp_all add: mouseMoveEvent_drag [OF assms] update_wl_keeps plus_NaN clip_NaN)

section \<open>Spin boxes and animation\<close>

lemma setValue_value:
  "value_sb (selected (snd (setValue d x v)) d) =
     max (minimum (selected v d)) (min (maximum (selected v d)) x)"
  by (auto simp: setValue_def Let_def update_image_keeps)

lemma increment_value:
  assumes "maximum (selected v d) \<noteq> 0"
  shows "value_sb (selected (snd (increment d v)) d) =
           max (minimum (selected v d))
             (min (maximum (selected v d)) ((value_sb (selected v d) + 1) mod maximum (selected v d)))"
  using assms by (simp add: increment_def Let_def setValue_value)

lemma disable_singletons_maximum:
  "maximum (selected (disable_singletons ds v) d) = maximum (selected v d)"
  by (induction ds arbitrary: v) simp_all

lemma disable_singletons_stays:
  "\<not> enabled (dim_buttons v d) \<and> \<not> visible (dim_buttons v d) \<and>
   \<not> enabled (selected v d) \<and> \<not> visible (selected v d) \<Longrightarrow>
   \<not> enabled (dim_buttons (disable_singletons ds v) d) \<and>
   \<not> visible (dim_buttons (disable_singletons ds v) d) \<and>
   \<not> enabled (selected (disable_singletons ds v) d) \<and>
   \<not> visible (selected (disable_singletons ds v) d)"
  by (induction ds arbitrary: v) simp_all

lemma disable_singletons_off:
  "d \<in> set ds \<Longrightarrow> maximum (selected v d) = 0 \<Longrightarrow>
   \<not> enabled (dim_buttons (disable_singletons ds v) d) \<and>
   \<not> visible (dim_buttons (disable_singletons ds v) d) \<and>
   \<not> enabled (selected (disable_singletons ds v) d) \<and>
   \<not> visible (selected (disable_singletons ds v) d)"
proof (induction ds arbitrary: v)
  case Nil
  then show ?case by simp
next
  case (Cons a ds)
  show ?case
  proof (cases "a = d")
    case True
    let ?v = "v\<lparr>dim_buttons := (dim_buttons v)
                   (d := (dim_buttons v d)\<lparr>enabled := False, visible := False\<rparr>),
               selected := (selected v)
                   (d := (selected v d)\<lparr>enabled := False, visible := False\<rparr>)\<rparr>"
    have eq: "disable_singletons (a # ds) v = disable_singletons ds ?v"
      using True Cons.prems(2) by simp
    show ?thesis
      unfolding eq by (rule disable_singletons_stays) simp
  next
    case False
    with Cons.prems have "d \<in> set ds" by simp
    moreover have "maximum (selected (if maximum (selected v a) = 0
        then v\<lparr>dim_buttons := (dim_buttons v)
                   (a := (dim_buttons v a)\<lparr>enabled := False, visible := False\<rparr>),
               selected := (selected v)
                   (a := (selected v a)\<lparr>enabled := False, visible := False\<rparr>)\<rparr>
        else v) d) = 0"
      using Cons.prems(2) by simp
    ultimately show ?thesis
      using Cons.IH by simp
  qed
qed

lemma dim_in_DIMS: "d \<in> set DIMS"
  by (cases d) (simp_all add: DIMS_def)

lemma disable_singletons_keeps:
  "checkedButton (disable_singletons ds v) = checkedButton v"
  "animate (disable_singletons ds v) = animate v"
  "timer (disable_singletons ds v) = timer v"
  "log_v (disable_singletons ds v) = log_v v"
  "timer_interval (disable_singletons ds v) = timer_interval v"
  "container (disable_singletons ds v) = container v"
  "data_v (disable_singletons ds v) = data_v v"
  by (induction ds arbitrary: v) simp_all

lemma disable_singletons_on:
  "maximum (selected v d) \<noteq> 0 \<Longrightarrow>
   selected (disable_singletons ds v) d = selected v d \<and>
   dim_buttons (disable_singletons ds v) d = dim_buttons v d"
proof (induction ds arbitrary: v)
  case Nil
  show ?case by simp
next
  case (Cons a ds)
  show ?case
  proof (cases "maximum (selected v a) = 0")
    case True
    with Cons.prems have ne: "a \<noteq> d" by auto
    let ?v = "v\<lparr>dim_buttons := (dim_buttons v)
                   (a := (dim_buttons v a)\<lparr>enabled := False, visible := False\<rparr>),
               selected := (selected v)
                   (a := (selected v a)\<lparr>enabled := False, visible := False\<rparr>)\<rparr>"
    have eq: "disable_singletons (a # ds) v = disable_singletons ds ?v"
      using True by simp
    have "maximum (selected ?v d) \<noteq> 0" using Cons.prems ne by simp
    from Cons.IH [OF this] show ?thesis
      unfolding eq using ne by simp
  next
    case False
    then have eq: "disable_singletons (a # ds) v = disable_singletons ds v" by simp
    from Cons.IH [OF Cons.prems] show ?thesis unfolding eq .
  qed
qed

text \<open>
  The test of \<^verbatim>\<open>animate_frames\<close> is on the maximum of the spin box: with maximum 0 no
  timer starts, the button is unchecked and a warning is logged; the icon stays the pause
  icon that line 571 has set.
\<close>

lemma maximum_zero_guard:
  assumes "maximum (selected v d) = 0" and "checkedButton v = d" and "checked (animate v)"
  shows "timer (animate_frames v) = timer v"
    and "\<not> checked (animate (animate_frames v))"
    and "icon_b (animate (animate_frames v)) = SP_MediaPause"
    and "log_v (animate_frames v) = log_v v @ [''Cannot animate singleton dimension.'']"
  using assms by (simp_all add: animate_frames_def Let_def)

section \<open>Orientation of the stored data\<close>

lemma getitem_map: "getitem (map f xs) i = map_sum id f (getitem xs i)"
proof -
  have "nat i < length xs" if "0 \<le> i" "i < int (length xs)"
    using that by linarith
  moreover have "nat (int (length xs) + i) < length xs" if "i < 0" "- int (length xs) \<le> i"
    using that by linarith
  ultimately show ?thesis
    by (simp add: getitem_def)
qed

lemma mask_select_map: "mask_select idx (map f xs) = map_sum id (map f) (mask_select idx xs)"
  by (simp add: mask_select_def zip_map2 filter_map o_def case_prod_unfold)

lemma bind_err_map_sum:
  "bind_err (map_sum id f r) g = bind_err r (\<lambda>x. g (f x))"
  by (cases r) (simp_all add: bind_err_def)

lemma map_sum_bind_err:
  "map_sum id f (bind_err r g) = bind_err r (\<lambda>x. map_sum id f (g x))"
  by (cases r) (simp_all add: bind_err_def)

lemma pick_map:
  "pick (map (map (map g)) arr) i c = map_sum id g (pick arr i c)"
  by (simp add: pick_def getitem_map bind_err_map_sum map_sum_bind_err)

lemma fetch_image_ok:
  assumes "cache_ok v"
  shows "fst (fetch_image v key) = fetch_image_body v key"
proof (cases "cache v key")
  case None
  then show ?thesis by (simp add: fetch_image_def split: sum.splits)
next
  case (Some a)
  with assms have "fetch_image_body v key = Inr a" unfolding cache_ok_def by blast
  with Some show ?thesis by (simp add: fetch_image_def)
qed

lemma geometry_identity:
  "nrot v mod 4 = 0 \<Longrightarrow> \<not> fliph v \<Longrightarrow> \<not> flipv v \<Longrightarrow> geometry v im = im"
  by (simp add: geometry_def rot90_def)

lemma orient_nth:
  assumes rect: "\<forall>row \<in> set m. length row = C" and a: "a < C" and b: "b < length m"
  shows "orient m ! a ! b = m ! (length m - 1 - b) ! (C - 1 - a)"
proof -
  let ?r = "map rev m"
  have ne: "m \<noteq> []" using b by auto
  have len: "\<And>i. i < length ?r \<Longrightarrow> length (?r ! i) = C"
    using rect by simp
  have tr: "transpose ?r = map (\<lambda>i. map (\<lambda>j. ?r ! j ! i) [0..<length ?r]) [0..<C]"
    by (rule transpose_rectangle) (use ne len in auto)
  have "orient m ! a = rev (map (\<lambda>j. ?r ! j ! a) [0..<length m])"
    using a by (simp add: orient_def rot90_def flip_axis1_def tr)
  moreover have lt: "length m - 1 - b < length m" using b by simp
  ultimately have "orient m ! a ! b = ?r ! (length m - 1 - b) ! a"
    using b by (simp add: rev_nth)
  also have "\<dots> = rev (m ! (length m - 1 - b)) ! a"
    using lt by simp
  also have "\<dots> = m ! (length m - 1 - b) ! (C - 1 - a)"
  proof -
    have "m ! (length m - 1 - b) \<in> set m" using b by simp
    with rect have "length (m ! (length m - 1 - b)) = C" by blast
    with a show ?thesis by (simp add: rev_nth)
  qed
  finally show ?thesis .
qed

lemma bind_err_Inr: "bind_err r Inr = r"
  by (cases r) (simp_all add: bind_err_def)

section \<open>Properties of the contrast defaults\<close>

lemma current_frame_keeps:
  "selected (snd (current_frame v)) = selected v"
  "nrot (snd (current_frame v)) = nrot v"
  "fliph (snd (current_frame v)) = fliph v"
  "flipv (snd (current_frame v)) = flipv v"
  "range_v (snd (current_frame v)) = range_v v"
  "min_v (snd (current_frame v)) = min_v v"
  "max_v (snd (current_frame v)) = max_v v"
  by (simp_all add: current_frame_snd fetch_image_keeps)

lemma same_index_contrast_upd:
  "same_index v (v\<lparr>min_v := lo\<rparr>)"
  "same_index v (v\<lparr>max_v := hi, range_v := r\<rparr>)"
  unfolding same_index_def by simp_all

lemma current_frame_again:
  assumes "fst (current_frame v) = Inr im" and "same_index v v'"
    and "selected v' = selected v" and "nrot v' = nrot v"
    and "fliph v' = fliph v" and "flipv v' = flipv v"
  shows "current_frame v' = (Inr im, snd (current_frame v'))"
    and "same_index v (snd (current_frame v'))"
    and "selected (snd (current_frame v')) = selected v"
    and "nrot (snd (current_frame v')) = nrot v"
    and "fliph (snd (current_frame v')) = fliph v"
    and "flipv (snd (current_frame v')) = flipv v"
proof -
  have "fst (current_frame v') = Inr im"
    using frame_same [OF assms(2,3) _ assms(5,6)] assms(1,4) by simp
  then show "current_frame v' = (Inr im, snd (current_frame v'))"
    by (metis prod.collapse)
  show "same_index v (snd (current_frame v'))"
    by (rule same_index_trans [OF assms(2) current_frame_same])
qed (simp_all add: current_frame_keeps assms)

lemma init_window_level_unfold:
  assumes "fst (current_frame v) = Inr im"
    and "np_min (concat im) = Inr lo" and "np_max (concat im) = Inr hi"
  shows "\<exists>v6. range_v v6 = Fin (hi - lo) \<and> min_v v6 = Fin lo \<and> max_v v6 = Fin hi \<and>
           init_window_level v =
             (Inr (),
              v6\<lparr>window := (Fin (percentile (concat im) 98) - Fin (percentile (concat im) 2))
                             / range_v v6,
                 level := (Fin (percentile (concat im) 98) + Fin (percentile (concat im) 2))
                             / 2 / range_v v6\<rparr>)"
proof -
  define v1 where "v1 = snd (current_frame v)"
  define v2 where "v2 = snd (current_frame (v1\<lparr>min_v := Fin lo\<rparr>))"
  define v4 where "v4 = v2\<lparr>max_v := Fin hi, range_v := Fin hi - min_v v2\<rparr>"
  define v5 where "v5 = snd (current_frame v4)"
  define v6 where "v6 = snd (current_frame v5)"
  note a0 = current_frame_again [OF assms(1) same_index_refl refl refl refl refl]
  have e1: "current_frame v = (Inr im, v1)"
    unfolding v1_def by (rule a0(1))
  have s1: "same_index v (v1\<lparr>min_v := Fin lo\<rparr>)"
    unfolding v1_def by (rule same_index_trans [OF a0(2) same_index_contrast_upd(1)])
  have k1: "selected (v1\<lparr>min_v := Fin lo\<rparr>) = selected v"
    "nrot (v1\<lparr>min_v := Fin lo\<rparr>) = nrot v"
    "fliph (v1\<lparr>min_v := Fin lo\<rparr>) = fliph v" "flipv (v1\<lparr>min_v := Fin lo\<rparr>) = flipv v"
    unfolding v1_def by (simp_all add: a0(3-6))
  note a1 = current_frame_again [OF assms(1) s1 k1]
  have e2: "current_frame (v1\<lparr>min_v := Fin lo\<rparr>) = (Inr im, v2)"
    unfolding v2_def by (rule a1(1))
  have m2: "min_v v2 = Fin lo"
    unfolding v2_def by (simp add: current_frame_keeps)
  have s4: "same_index v v4"
    unfolding v4_def v2_def by (rule same_index_trans [OF a1(2) same_index_contrast_upd(2)])
  have k4: "selected v4 = selected v" "nrot v4 = nrot v" "fliph v4 = fliph v" "flipv v4 = flipv v"
    unfolding v4_def v2_def by (simp_all add: a1(3-6))
  note a4 = current_frame_again [OF assms(1) s4 k4]
  have e3: "current_frame v4 = (Inr im, v5)"
    unfolding v5_def by (rule a4(1))
  have s5: "same_index v v5" unfolding v5_def by (rule a4(2))
  have k5: "selected v5 = selected v" "nrot v5 = nrot v" "fliph v5 = fliph v" "flipv v5 = flipv v"
    unfolding v5_def by (simp_all add: a4(3-6))
  note a5 = current_frame_again [OF assms(1) s5 k5]
  have e4: "current_frame v5 = (Inr im, v6)"
    unfolding v6_def by (rule a5(1))
  have v4': "v2\<lparr>max_v := Fin hi,
                 range_v := max_v (v2\<lparr>max_v := Fin hi\<rparr>) - min_v (v2\<lparr>max_v := Fin hi\<rparr>)\<rparr> = v4"
    by (simp add: v4_def)
  have r6: "range_v v6 = Fin (hi - lo)" "min_v v6 = Fin lo" "max_v v6 = Fin hi"
    unfolding v6_def v5_def by (simp_all add: current_frame_keeps v4_def m2 Fin_arith)
  have "init_window_level v =
             (Inr (),
              v6\<lparr>window := (Fin (percentile (concat im) 98) - Fin (percentile (concat im) 2))
                             / range_v v6,
                 level := (Fin (percentile (concat im) 98) + Fin (percentile (concat im) 2))
                             / 2 / range_v v6\<rparr>)"
    unfolding init_window_level_def e1
    apply (subst bind_se_def)
    apply (simp only: prod.case sum.case assms)
    apply (subst bind_se_def)
    apply (simp only: prod.case sum.case e2)
    apply (subst bind_se_def)
    apply (simp only: prod.case sum.case assms)
    apply (subst bind_se_def)
    apply (simp only: prod.case sum.case Let_def)
    apply (simp only: v4' e3)
    apply (subst bind_se_def)
    apply (simp only: prod.case sum.case e4)
    apply (subst bind_se_def)
    apply (simp only: prod.case sum.case)
    apply simp
    done
  with r6 show ?thesis by blast
qed

lemma init_window_level_values:
  assumes "fst (current_frame v) = Inr im"
    and "np_min (concat im) = Inr lo" and "np_max (concat im) = Inr hi"
  shows "fst (init_window_level v) = Inr ()"
    and "window (snd (init_window_level v)) =
           (Fin (percentile (concat im) 98) - Fin (percentile (concat im) 2)) / Fin (hi - lo)"
    and "level (snd (init_window_level v)) =
           (Fin (percentile (concat im) 98) + Fin (percentile (concat im) 2)) / 2 / Fin (hi - lo)"
    and "range_v (snd (init_window_level v)) = Fin (hi - lo)"
    and "min_v (snd (init_window_level v)) = Fin lo"
    and "max_v (snd (init_window_level v)) = Fin hi"
proof -
  from init_window_level_unfold [OF assms(1-3)] obtain v6 where
    r: "range_v v6 = Fin (hi - lo)" "min_v v6 = Fin lo" "max_v v6 = Fin hi" and
    e: "init_window_level v =
             (Inr (),
              v6\<lparr>window := (Fin (percentile (concat im) 98) - Fin (percentile (concat im) 2))
                             / range_v v6,
                 level := (Fin (percentile (concat im) 98) + Fin (percentile (concat im) 2))
                             / 2 / range_v v6\<rparr>)"
    by blast
  show "fst (init_window_level v) = Inr ()"
    and "window (snd (init_window_level v)) =
           (Fin (percentile (concat im) 98) - Fin (percentile (concat im) 2)) / Fin (hi - lo)"
    and "level (snd (init_window_level v)) =
           (Fin (percentile (concat im) 98) + Fin (percentile (concat im) 2)) / 2 / Fin (hi - lo)"
    and "range_v (snd (init_window_level v)) = Fin (hi - lo)"
    and "min_v (snd (init_window_level v)) = Fin lo"
    and "max_v (snd (init_window_level v)) = Fin hi"
    unfolding e by (simp_all add: r)
qed

text \<open>A frame whose smallest and largest pixel are equal has that value at every percentile.\<close>

lemma fold_min_le:
  fixes x :: real
  shows "fold min ys x \<le> x" and "y \<in> set ys \<Longrightarrow> fold min ys x \<le> y"
proof (induction ys arbitrary: x)
  case Nil
  { case 1 show ?case by simp }
  { case 2 then show ?case by simp }
next
  case (Cons a ys)
  { case 1 
    have "fold min ys (min a x) \<le> min a x" by (rule Cons.IH(1))
    then show ?case by simp }
  { case 2
    have a: "fold min ys (min a x) \<le> min a x" by (rule Cons.IH(1))
    from 2 have "y = a \<or> y \<in> set ys" by simp
    then show ?case
    proof
      assume "y = a" with a show ?thesis by simp
    next
      assume "y \<in> set ys" then show ?thesis using Cons.IH(2) by simp
    qed }
qed

lemma fold_max_ge:
  fixes x :: real
  shows "x \<le> fold max ys x" and "y \<in> set ys \<Longrightarrow> y \<le> fold max ys x"
proof (induction ys arbitrary: x)
  case Nil
  { case 1 show ?case by simp }
  { case 2 then show ?case by simp }
next
  case (Cons a ys)
  { case 1 
    have "max a x \<le> fold max ys (max a x)" by (rule Cons.IH(1))
    then show ?case by simp }
  { case 2
    have a: "max a x \<le> fold max ys (max a x)" by (rule Cons.IH(1))
    from 2 have "y = a \<or> y \<in> set ys" by simp
    then show ?case
    proof
      assume "y = a" with a show ?thesis by simp
    next
      assume "y \<in> set ys" then show ?thesis using Cons.IH(2) by simp
    qed }
qed

lemma constant_frame:
  assumes "np_min xs = Inr c" and "np_max xs = Inr c"
  shows "xs \<noteq> [] \<and> (\<forall>e \<in> set xs. e = c)"
proof (cases xs)
  case Nil
  with assms show ?thesis by (simp add: np_min_def)
next
  case (Cons x ys)
  with assms have lo: "fold min ys x = c" and hi: "fold max ys x = c"
    by (simp_all add: np_min_def np_max_def)
  have "e = c" if "e \<in> set xs" for e
  proof -
    from that Cons have "e = x \<or> e \<in> set ys" by simp
    then have "fold min ys x \<le> e \<and> e \<le> fold max ys x"
      using fold_min_le fold_max_ge by auto
    with lo hi show ?thesis by simp
  qed
  with Cons show ?thesis by simp
qed

lemma percentile_constant:
  assumes "xs \<noteq> []" and "\<forall>e \<in> set xs. e = c" and "0 \<le> q" and "q \<le> 100"
  shows "percentile xs q = c"
proof -
  let ?s = "sort xs" and ?n = "length xs"
  let ?p = "q / 100 * real (?n - 1)"
  have n: "0 < ?n" using assms(1) by simp
  have nth: "?s ! i = c" if "i < ?n" for i
  proof -
    from that have "?s ! i \<in> set ?s" by (intro nth_mem) simp
    with assms(2) show ?thesis by simp
  qed
  have "q / 100 \<le> 1" using assms(4) by simp
  then have "?p \<le> 1 * real (?n - 1)"
    by (rule mult_right_mono) simp
  then have "\<lfloor>?p\<rfloor> \<le> int (?n - 1)" by (simp add: floor_le_iff)
  then have "nat \<lfloor>?p\<rfloor> \<le> ?n - 1" by simp
  with n have lo: "nat \<lfloor>?p\<rfloor> < ?n" by linarith
  have "min (nat \<lfloor>?p\<rfloor> + 1) (?n - 1) \<le> ?n - 1" by (rule min.cobounded2)
  with n have hi: "min (nat \<lfloor>?p\<rfloor> + 1) (?n - 1) < ?n" by linarith
  show ?thesis
    unfolding percentile_def Let_def length_sort
    using nth [OF lo] nth [OF hi] by simp
qed

section \<open>The table stays coherent\<close>

lemma same_index_cache_ok:
  assumes "same_index v v'" and "cache_ok v"
  shows "cache_ok v'"
  unfolding cache_ok_def
proof (intro allI impI)
  fix key r
  assume c: "cache v' key = Some r"
  from same_index_cache [OF assms(1), of key] c
  have "cache v key = Some r \<or> fetch_image_body v key = Inr r" by auto
  with assms(2) have "fetch_image_body v key = Inr r"
    unfolding cache_ok_def by blast
  then show "fetch_image_body v' key = Inr r"
    by (simp add: same_index_body [OF assms(1)])
qed

lemma cache_ok_kept:
  "cache_ok v \<Longrightarrow> cache_ok (snd (fetch_image v key))"
  "cache_ok v \<Longrightarrow> cache_ok (snd (current_frame v))"
  "cache_ok v \<Longrightarrow> cache_ok (snd (update_image v))"
  "cache_ok v \<Longrightarrow> cache_ok (snd (rotate_cw v))"
  "cache_ok v \<Longrightarrow> cache_ok (snd (rotate_ccw v))"
  "cache_ok v \<Longrightarrow> cache_ok (snd (flip_h v))"
  "cache_ok v \<Longrightarrow> cache_ok (snd (flip_v v))"
  "cache_ok v \<Longrightarrow> cache_ok (snd (window_input x v))"
  "cache_ok v \<Longrightarrow> cache_ok (snd (level_input x v))"
  "cache_ok v \<Longrightarrow> cache_ok (snd (mouseMoveEvent pos v))"
  by (erule same_index_cache_ok [rotated],
      rule fetch_image_same current_frame_same update_image_same rotate_cw_same rotate_ccw_same
        flip_h_same flip_v_same window_input_same level_input_same mouseMoveEvent_same)+

section \<open>Cardinalities and spin boxes\<close>

lemma count_axes_cardinality:
  assumes "count_axes c = Inr n"
  shows "cardinality (map hdr_phase (headers c)) = Inr (nphase n)"
    and "cardinality (map hdr_set (headers c)) = Inr (nset n)"
    and "cardinality (map hdr_repetition (headers c)) = Inr (nrep n)"
    and "cardinality (map hdr_slice (headers c)) = Inr (nslice n)"
    and "cardinality (map hdr_contrast (headers c)) = Inr (ncontrast n)"
  using assms
  by (auto simp: count_axes_def Let_def bind_err_def split: sum.splits)

lemma header_axis_maximum:
  assumes "set_maxima v = Inr v'"
  shows "cardinality (map hdr_phase (headers (container v))) = Inr (maximum (selected v' Phase) + 1)"
    and "cardinality (map hdr_set (headers (container v))) = Inr (maximum (selected v' Set) + 1)"
    and "cardinality (map hdr_repetition (headers (container v))) =
           Inr (maximum (selected v' Repetition) + 1)"
    and "cardinality (map hdr_slice (headers (container v))) = Inr (maximum (selected v' Slice) + 1)"
    and "cardinality (map hdr_contrast (headers (container v))) =
           Inr (maximum (selected v' Contrast) + 1)"
proof -
  from assms obtain n where n: "count_axes (container v) = Inr n"
    by (cases "count_axes (container v)") (simp_all add: set_maxima_def bind_err_def)
  from assms have m: "maximum (selected v' Phase) = nphase n - 1"
    "maximum (selected v' Set) = nset n - 1" "maximum (selected v' Repetition) = nrep n - 1"
    "maximum (selected v' Slice) = nslice n - 1" "maximum (selected v' Contrast) = ncontrast n - 1"
    by (auto simp: set_maxima_def n bind_err_def setMaximum_def Let_def)
  show "cardinality (map hdr_phase (headers (container v))) = Inr (maximum (selected v' Phase) + 1)"
    and "cardinality (map hdr_set (headers (container v))) = Inr (maximum (selected v' Set) + 1)"
    and "cardinality (map hdr_repetition (headers (container v))) =
           Inr (maximum (selected v' Repetition) + 1)"
    and "cardinality (map hdr_slice (headers (container v))) = Inr (maximum (selected v' Slice) + 1)"
    and "cardinality (map hdr_contrast (headers (container v))) =
           Inr (maximum (selected v' Contrast) + 1)"
    by (simp_all add: count_axes_cardinality [OF n] m)
qed

lemma set_channel_maximum_snd:
  assumes "fst (fetch_image v (repetition v, set_v v, phase v, slice v, contrast v)) = Inr a"
  shows "set_channel_maximum v =
           (Inr (), (snd (fetch_image v (repetition v, set_v v, phase v, slice v, contrast v)))
              \<lparr>selected := (selected v)
                 (Channel := setMaximum (shape1 (data_v v) - 1) (selected v Channel))\<rparr>)"
proof -
  obtain r v' where f: "fetch_image v (repetition v, set_v v, phase v, slice v, contrast v) = (r, v')"
    by (cases "fetch_image v (repetition v, set_v v, phase v, slice v, contrast v)")
  from assms f have r: "r = Inr a" by simp
  from f have k: "selected v' = selected v" "data_v v' = data_v v"
    using fetch_image_keeps(1) [of v "(repetition v, set_v v, phase v, slice v, contrast v)"]
      fetch_image_controls(6) [of v "(repetition v, set_v v, phase v, slice v, contrast v)"]
    by simp_all
  show ?thesis
    unfolding set_channel_maximum_def f r bind_se_def by (simp add: k)
qed

lemma fetch_image_succeeds:
  assumes "length (headers (container v)) = length (data_v v)"
  shows "\<exists>a. fetch_image v k = (Inr a, snd (fetch_image v k))"
proof -
  from fetch_image_twice [OF assms, of k] obtain a where "fst (fetch_image v k) = Inr a"
    by blast
  then have "fetch_image v k = (Inr a, snd (fetch_image v k))"
    by (simp add: prod_eq_iff)
  then show ?thesis by blast
qed

lemma image_shape_value:
  assumes "count_axes (container v) = Inr n"
    and "length (headers (container v)) = length (data_v v)"
  shows "\<exists>v'. image_shape v =
            (Inr [nimg n, nrep n, nset n, nphase n, nslice n, ncontrast n, shape1 (data_v v)], v') \<and>
          animate v' = animate v \<and> checkedButton v' = checkedButton v"
proof -
  let ?k = "\<lambda>v. (repetition v, set_v v, phase v, slice v, contrast v)"
  define v1 where "v1 = snd (fetch_image v (?k v))"
  define v2 where "v2 = snd (fetch_image v1 (?k v1))"
  define v3 where "v3 = snd (fetch_image v2 (?k v2))"
  define v4 where "v4 = snd (fetch_image v3 (?k v3))"
  have w1: "length (headers (container v1)) = length (data_v v1)"
    unfolding v1_def using assms(2) by (simp add: fetch_image_controls)
  have w2: "length (headers (container v2)) = length (data_v v2)"
    unfolding v2_def using w1 by (simp add: fetch_image_controls)
  have w3: "length (headers (container v3)) = length (data_v v3)"
    unfolding v3_def using w2 by (simp add: fetch_image_controls)
  from fetch_image_succeeds [OF assms(2), of "?k v"] obtain a1 where
    f1: "fetch_image v (?k v) = (Inr a1, v1)" unfolding v1_def by blast
  from fetch_image_succeeds [OF w1, of "?k v1"] obtain a2 where
    f2: "fetch_image v1 (?k v1) = (Inr a2, v2)" unfolding v2_def by blast
  from fetch_image_succeeds [OF w2, of "?k v2"] obtain a3 where
    f3: "fetch_image v2 (?k v2) = (Inr a3, v3)" unfolding v3_def by blast
  from fetch_image_succeeds [OF w3, of "?k v3"] obtain a4 where
    f4: "fetch_image v3 (?k v3) = (Inr a4, v4)" unfolding v4_def by blast
  have d: "data_v v4 = data_v v" "animate v4 = animate v" "checkedButton v4 = checkedButton v"
    unfolding v4_def v3_def v2_def v1_def
    by (simp_all add: fetch_image_controls fetch_image_keeps)
  have "image_shape v =
      (Inr [nimg n, nrep n, nset n, nphase n, nslice n, ncontrast n, shape1 (data_v v4)], v4)"
    unfolding image_shape_def assms(1) sum.case
    apply (subst bind_se_def)
    apply (simp only: f1 prod.case sum.case)
    apply (subst bind_se_def)
    apply (simp only: f2 prod.case sum.case)
    apply (subst bind_se_def)
    apply (simp only: f3 prod.case sum.case)
    apply (subst bind_se_def)
    apply (simp only: f4 prod.case sum.case)
    done
  with d show ?thesis by simp
qed

lemma check_dim_enabled:
  assumes "count_axes (container v) = Inr n"
    and "length (headers (container v)) = length (data_v v)"
  shows "enabled (animate (snd (check_dim v))) =
           (1 < [nimg n, nrep n, nset n, nphase n, nslice n, ncontrast n, shape1 (data_v v)]
                  ! dim_id (checkedButton v))"
proof -
  from image_shape_value [OF assms] obtain v' where
    i: "image_shape v =
          (Inr [nimg n, nrep n, nset n, nphase n, nslice n, ncontrast n, shape1 (data_v v)], v')"
    and k: "animate v' = animate v" "checkedButton v' = checkedButton v"
    by blast
  show ?thesis
    unfolding check_dim_def i bind_se_def prod.case sum.case
    by (simp add: update_image_keeps(10) k)
qed

lemma animate_frames_selected: "selected (animate_frames v) = selected v"
  by (simp add: animate_frames_def Let_def split: option.splits)

section \<open>Evaluation on the small data sets\<close>

lemma orient_2x2: "orient [[a, b], [c, d]] = [[d, b], [c, a]]"
  by (simp add: orient_def rot90_def flip_axis1_def transpose.simps)

lemma ex_data: "data_v ex_viewer =
  [[[[[4, 2], [3, 1]]]], [[[[8, 6], [7, 5]]]], [[[[12, 10], [11, 9]]]],
         [[[[16, 14], [15, 13]]]], [[[[20, 18], [19, 17]]]], [[[[24, 22], [23, 21]]]]]"
  by (simp add: ex_viewer_def load_data_def ex_container_def ex_raw_def orient_2x2)

lemma ex_fields:
  "container ex_viewer = ex_container"
  "selected ex_viewer = (\<lambda>d. ex_spinbox (ex_maximum d))"
  "cache ex_viewer = Map.empty"
  "scans ex_viewer = 0"
  "nrot ex_viewer = 0" "fliph ex_viewer = False" "flipv ex_viewer = False"
  "checkedButton ex_viewer = Instance"
  "min_v ex_viewer = 1" "max_v ex_viewer = 4" "range_v ex_viewer = 3"
  "window ex_viewer = 24 / 25" "level ex_viewer = 5 / 6"
  "mloc ex_viewer = None" "timer ex_viewer = None"
  "image_v ex_viewer = Some ([[4, 2], [3, 1]], 103 / 50, 247 / 50)"
  by (simp_all add: ex_viewer_def)

lemma ex_headers:
  "map hdr_phase (headers ex_container) = [0, 0, 0, 0, 0, 0]"
  "map hdr_set (headers ex_container) = [0, 0, 0, 0, 0, 0]"
  "map hdr_repetition (headers ex_container) = [0, 0, 0, 0, 0, 0]"
  "map hdr_slice (headers ex_container) = [0, 1, 2, 0, 1, 2]"
  "map hdr_contrast (headers ex_container) = [0, 0, 0, 0, 0, 0]"
  by (simp_all add: ex_container_def ex_header_def)

lemma ex_body: "fetch_image_body ex_viewer (0,0,0,sl,0) =
    Inr (map snd (filter fst (zip (np_eq [0, 1, 2, 0, 1, 2] sl) (data_v ex_viewer))))"
  by (simp add: fetch_image_body_def header_mask_def ex_fields ex_headers ex_data)
     (simp add: np_eq_def np_and_def mask_select_def)

lemma ex_fetch: "fst (fetch_image ex_viewer (0,0,0,1,0)) = Inr [[[[[8, 6], [7, 5]]]], [[[[20, 18], [19, 17]]]]]"
  by (simp add: fetch_image_def ex_body ex_fields ex_data np_eq_def)

lemma ex_sel: "repetition ex_viewer = 0" "set_v ex_viewer = 0" "phase ex_viewer = 0" "slice ex_viewer = 0"
  "contrast ex_viewer = 0" "frame ex_viewer = 0" "coil ex_viewer = 0"
  by (simp_all add: repetition_def set_v_def phase_def slice_def contrast_def
      frame_def coil_def ex_spinbox_def ex_fields)

lemma ex_frame: "fst (current_frame ex_viewer) = Inr [[4, 2], [3, 1]]"
  by (simp add: current_frame_def bind_se_def fetch_image_def ex_sel ex_body ex_fields ex_data np_eq_def
       pick_def getitem_def bind_err_def geometry_def rot90_def)

lemma ex_scan:
  "scans (snd (fetch_image ex_viewer (0, 0, 0, 1, 0))) = 1"
  by (simp add: fetch_image_def ex_body ex_fields)

lemma sp_sel: "repetition sp_viewer = 0" "set_v sp_viewer = 0" "phase sp_viewer = 0"
  "slice sp_viewer = 1" "contrast sp_viewer = 0" "frame sp_viewer = - 1" "coil sp_viewer = 0"
  by (simp_all add: repetition_def set_v_def phase_def slice_def contrast_def
      frame_def coil_def ex_spinbox_def sp_viewer_def sp_selected_def)

lemma sp_fetch: "fst (fetch_image sp_viewer (0, 0, 0, 1, 0)) = Inr []"
  by (simp add: fetch_image_def fetch_image_body_def header_mask_def sp_viewer_def ex_viewer_def
      sp_container_def sp_header_def load_data_def np_eq_def np_and_def mask_select_def)

lemma ex_stored:
  "bind_err (mask_select (header_mask (headers (container ex_viewer)) (0, 0, 0, 0, 0)) ex_raw)
     (\<lambda>ms. pick ms 0 0) = Inr [[1, 2], [3, 4]]"
  by (simp add: header_mask_def ex_fields ex_headers)
     (simp add: np_eq_def np_and_def mask_select_def ex_raw_def bind_err_def pick_def getitem_def)

lemma flat_frame: "fst (current_frame flat_viewer) = Inr [[7, 7], [7, 7]]"
proof -
  have d: "data_v flat_viewer = replicate 6 [[[[7, 7], [7, 7]]]]"
    by (simp add: flat_viewer_def flat_container_def load_data_def orient_2x2)
  have s: "selected flat_viewer = selected ex_viewer" "cache flat_viewer = Map.empty"
    "nrot flat_viewer = 0" "\<not> fliph flat_viewer" "\<not> flipv flat_viewer"
    "headers (container flat_viewer) = headers ex_container"
    by (simp_all add: flat_viewer_def flat_container_def ex_viewer_def)
  have k: "repetition flat_viewer = 0" "set_v flat_viewer = 0" "phase flat_viewer = 0"
    "slice flat_viewer = 0" "contrast flat_viewer = 0" "frame flat_viewer = 0" "coil flat_viewer = 0"
    using ex_sel
    by (simp_all add: repetition_def set_v_def phase_def slice_def contrast_def frame_def coil_def s)
  have b: "fetch_image_body flat_viewer (0, 0, 0, 0, 0) =
      Inr [[[[[7, 7], [7, 7]]]], [[[[7, 7], [7, 7]]]]]"
    by (simp add: fetch_image_body_def header_mask_def s ex_headers d)
       (simp add: np_eq_def np_and_def mask_select_def eval_nat_numeral)
  show ?thesis
    by (simp add: current_frame_fst k fetch_image_def s b bind_err_def pick_def getitem_def
        geometry_def rot90_def)
qed

lemma ex_defaults:
  "window (snd (init_window_level ex_viewer)) = 24 / 25"
  "level (snd (init_window_level ex_viewer)) = 5 / 6"
proof -
  have m14: "np_min (concat [[4, 2], [3, 1]]) = Inr 1" "np_max (concat [[4, 2], [3, 1]]) = Inr 4"
    by (simp_all add: np_min_def np_max_def)
  have p: "percentile [4, 2, 3, 1] 2 = 53 / 50"
    "percentile [4, 2, 3, 1] 98 = 197 / 50"
    by (simp_all add: percentile_def Let_def eval_nat_numeral)
  show "window (snd (init_window_level ex_viewer)) = 24 / 25"
    "level (snd (init_window_level ex_viewer)) = 5 / 6"
    using init_window_level_values(2,3) [OF ex_frame m14] by (simp_all add: p Fin_simps)
qed

lemma ex_counts:
  "count_axes ex_container =
     Inr \<lparr>nimg = 2, nrep = 1, nset = 1, nphase = 1, nslice = 3, ncontrast = 1\<rparr>"
proof -
  have c: "cardinality [0, 0, 0, 0, 0, 0] = Inr 1" "cardinality [0, 1, 2, 0, 1, 2] = Inr 3"
    by (simp_all add: cardinality_def)
  have l: "length (headers ex_container) = 6" by (simp add: ex_container_def)
  show ?thesis
    by (simp add: count_axes_def ex_headers c l bind_err_def py_truediv_def py_int_def)
qed

lemma ex_header_maxima: "set_maxima ex_viewer = Inr ex_viewer"
proof -
  have s: "setMaximum 0 (ex_spinbox 0) = ex_spinbox 0" "setMaximum 2 (ex_spinbox 2) = ex_spinbox 2"
    "setMaximum 1 (ex_spinbox 1) = ex_spinbox 1"
    by (simp_all add: setMaximum_def ex_spinbox_def)
  have "(selected ex_viewer)
               (Instance := ex_spinbox 1,
                Phase := ex_spinbox 0, Set := ex_spinbox 0, Repetition := ex_spinbox 0,
                Slice := ex_spinbox 2, Contrast := ex_spinbox 0) = selected ex_viewer"
    by (auto simp: ex_fields ex_maximum_def fun_eq_iff)
  then show ?thesis
    by (simp add: set_maxima_def ex_fields(1) ex_counts bind_err_def)
       (simp add: ex_fields(2) ex_maximum_def s)
qed

lemma sp_headers:
  "map hdr_phase (headers sp_container) = [0, 0]"
  "map hdr_set (headers sp_container) = [0, 0]"
  "map hdr_repetition (headers sp_container) = [0, 1]"
  "map hdr_slice (headers sp_container) = [0, 1]"
  "map hdr_contrast (headers sp_container) = [0, 0]"
  "length (headers sp_container) = 2"
  by (simp_all add: sp_container_def sp_header_def)

lemma sp_counts:
  "count_axes sp_container =
     Inr \<lparr>nimg = 0, nrep = 2, nset = 1, nphase = 1, nslice = 2, ncontrast = 1\<rparr>"
proof -
  have c: "cardinality [0, 0] = Inr 1" "cardinality [0, 1] = Inr 2"
    by (simp_all add: cardinality_def)
  show ?thesis
    by (simp add: count_axes_def sp_headers c bind_err_def py_truediv_def py_int_def)
qed

lemma sp_container_fields:
  "container sp_viewer = sp_container"
  "data_v sp_viewer = [[[[[4, 2], [3, 1]]]], [[[[8, 6], [7, 5]]]]]"
  "cache sp_viewer = Map.empty" "scans sp_viewer = 0"
  "timer_interval sp_viewer = 100" "log_v sp_viewer = []"
  by (simp_all add: sp_viewer_def ex_viewer_def load_data_def sp_container_def orient_2x2)

lemma sp_body:
  assumes "container v = sp_container"
    and "data_v v = [[[[[4, 2], [3, 1]]]], [[[[8, 6], [7, 5]]]]]"
  shows "fetch_image_body v (0, 0, 0, 0, 0) = Inr [[[[[4, 2], [3, 1]]]]]"
    and "fetch_image_body v (1, 0, 0, 1, 0) = Inr [[[[[8, 6], [7, 5]]]]]"
    and "fetch_image_body v (0, 0, 0, 1, 0) = Inr []"
    and "fetch_image_body v (1, 0, 0, 0, 0) = Inr []"
  by (simp_all add: fetch_image_body_def header_mask_def assms sp_headers np_eq_def np_and_def
      mask_select_def)

lemma sp_maxima:
  "bind_err (set_maxima (new_controls sp_viewer)) disable_single =
     Inr ((new_controls sp_viewer)\<lparr>selected := sp_boxes\<rparr>)"
  by (simp add: set_maxima_def disable_single_def new_controls_def sp_container_fields sp_counts
      bind_err_def setMaximum_def new_spinbox_def Let_def sp_boxes_def)

lemma sp_built_controls:
  "fst (init_controls sp_viewer) = Inr ()"
  "selected sp_built Instance =
     \<lparr>enabled = True, visible = True, minimum = - 1, maximum = - 1, value_sb = - 1\<rparr>"
  "dim_buttons sp_built Instance = \<lparr>enabled = True, visible = True\<rparr>"
  "checkedButton sp_built = Instance"
  "animate sp_built = \<lparr>enabled = True, visible = True, checked = False, icon_b = SP_MediaPlay\<rparr>"
  "timer sp_built = None" "log_v sp_built = []" "timer_interval sp_built = 100"
  "container sp_built = sp_container"
  "data_v sp_built = [[[[[4, 2], [3, 1]]]], [[[[8, 6], [7, 5]]]]]"
proof -
  let ?v = "(new_controls sp_viewer)\<lparr>selected := sp_boxes, mloc := None, timer := None\<rparr>"
  let ?k = "(repetition ?v, set_v ?v, phase ?v, slice ?v, contrast ?v)"
  have key: "?k = (0, 0, 0, 0, 0)"
    by (simp add: repetition_def set_v_def phase_def slice_def contrast_def sp_boxes_def)
  have cd: "container ?v = sp_container"
    "data_v ?v = [[[[[4, 2], [3, 1]]]], [[[[8, 6], [7, 5]]]]]" "cache ?v = Map.empty"
    by (simp_all add: new_controls_def sp_container_fields)
  have f: "fst (fetch_image ?v ?k) = Inr [[[[[4, 2], [3, 1]]]]]"
    unfolding key by (simp add: fetch_image_def cd(3) sp_body(1) [OF cd(1,2)])
  note c = set_channel_maximum_snd [OF f]
  let ?w = "(snd (fetch_image ?v ?k))
              \<lparr>selected := (selected ?v)
                 (Channel := setMaximum (shape1 (data_v ?v) - 1) (selected ?v Channel))\<rparr>"
  have e: "init_controls sp_viewer = (Inr (), disable_singletons DIMS ?w)"
    unfolding init_controls_def sp_maxima sum.case
    by (simp only: viewer.update_convs viewer.simps c bind_se_def prod.case sum.case)
  then have b: "sp_built = disable_singletons DIMS ?w" by (simp add: sp_built_def)
  show "fst (init_controls sp_viewer) = Inr ()" by (simp add: e)
  have i: "selected ?w Instance =
     \<lparr>enabled = True, visible = True, minimum = - 1, maximum = - 1, value_sb = - 1\<rparr>"
    by (simp add: sp_boxes_def)
  have db: "dim_buttons ?w Instance = \<lparr>enabled = True, visible = True\<rparr>"
    by (simp add: fetch_image_controls new_controls_def)
  have "maximum (selected ?w Instance) \<noteq> 0" by (simp add: sp_boxes_def)
  from disable_singletons_on [OF this, of DIMS] i db
  show "selected sp_built Instance =
     \<lparr>enabled = True, visible = True, minimum = - 1, maximum = - 1, value_sb = - 1\<rparr>"
    "dim_buttons sp_built Instance = \<lparr>enabled = True, visible = True\<rparr>"
    unfolding b by simp_all
  show "checkedButton sp_built = Instance"
    "animate sp_built = \<lparr>enabled = True, visible = True, checked = False, icon_b = SP_MediaPlay\<rparr>"
    "timer sp_built = None" "log_v sp_built = []" "timer_interval sp_built = 100"
    "container sp_built = sp_container"
    "data_v sp_built = [[[[[4, 2], [3, 1]]]], [[[[8, 6], [7, 5]]]]]"
    unfolding b
    by (simp_all add: disable_singletons_keeps fetch_image_controls fetch_image_keeps
        new_controls_def sp_container_fields)
qed

lemma sp_click_starts:
  "timer (animate_frames sp_click) = Some \<lparr>interval = 100, dimName = Instance\<rparr>"
  "checked (animate (animate_frames sp_click))"
  "log_v (animate_frames sp_click) = []"
  "timeout (animate_frames sp_click) = (Inr (), animate_frames sp_click)"
proof -
  have m: "maximum (selected sp_click Instance) = - 1"
    "minimum (selected sp_click Instance) = - 1" "value_sb (selected sp_click Instance) = - 1"
    "checkedButton sp_click = Instance" "checked (animate sp_click)"
    "timer_interval sp_click = 100" "log_v sp_click = []"
    by (simp_all add: sp_click_def sp_built_controls)
  show t: "timer (animate_frames sp_click) = Some \<lparr>interval = 100, dimName = Instance\<rparr>"
    and "checked (animate (animate_frames sp_click))"
    and "log_v (animate_frames sp_click) = []"
    by (simp_all add: animate_frames_def Let_def m)
  show "timeout (animate_frames sp_click) = (Inr (), animate_frames sp_click)"
    by (simp add: timeout_def t increment_def setValue_def Let_def animate_frames_selected m)
qed

lemma sp_check_dim: "\<not> enabled (animate (snd (check_dim sp_built)))"
proof -
  have c: "count_axes (container sp_built) =
     Inr \<lparr>nimg = 0, nrep = 2, nset = 1, nphase = 1, nslice = 2, ncontrast = 1\<rparr>"
    by (simp add: sp_built_controls sp_counts)
  have w: "length (headers (container sp_built)) = length (data_v sp_built)"
    by (simp add: sp_built_controls sp_headers)
  show ?thesis
    unfolding check_dim_enabled [OF c w]
    by (simp add: sp_built_controls dim_id_def)
qed

lemma ex_tick_fields:
  "selected ex_tick Slice = (ex_spinbox 2)\<lparr>value_sb := 1\<rparr>"
  "checkedButton ex_tick = Slice" "checked (animate ex_tick)"
  "timer_interval ex_tick = 100" "container ex_tick = ex_container"
  by (simp_all add: ex_tick_def ex_viewer_def)

section \<open>The claims\<close>

text \<open>
  Claim C1. When the headers and the data have the same number of entries and the table
  holds only results of the body, \<^verbatim>\<open>fetch_image\<close> returns without an exception exactly
  the entries of \<open>data_v\<close> at the positions whose header has the five coordinates asked
  for, in ascending position; when no header has them, it returns the empty sequence.
\<close>

theorem fetch_image_exact:
  assumes "length (headers (container v)) = length (data_v v)" and "cache_ok v"
  shows "fst (fetch_image v (r, s, p, sl, c)) =
           Inr (map ((!) (data_v v))
                  (filter (\<lambda>i. hdr_phase (headers (container v) ! i) = p \<and>
                                hdr_set (headers (container v) ! i) = s \<and>
                                hdr_repetition (headers (container v) ! i) = r \<and>
                                hdr_slice (headers (container v) ! i) = sl \<and>
                                hdr_contrast (headers (container v) ! i) = c)
                     [0..<length (data_v v)])) \<and>
         ((\<forall>h \<in> set (headers (container v)).
              \<not> (hdr_phase h = p \<and> hdr_set h = s \<and> hdr_repetition h = r \<and>
                 hdr_slice h = sl \<and> hdr_contrast h = c)) \<longrightarrow>
          fst (fetch_image v (r, s, p, sl, c)) = Inr [])"
proof -
  let ?P = "\<lambda>h. hdr_phase h = p \<and> hdr_set h = s \<and> hdr_repetition h = r \<and>
                 hdr_slice h = sl \<and> hdr_contrast h = c"
  let ?res = "map ((!) (data_v v))
                (filter (\<lambda>i. ?P (headers (container v) ! i)) [0..<length (data_v v)])"
  have body: "fetch_image_body v (r, s, p, sl, c) = Inr ?res"
    by (rule fetch_image_body_eq [OF assms(1)])
  have first: "fst (fetch_image v (r, s, p, sl, c)) = Inr ?res"
  proof (cases "cache v (r, s, p, sl, c)")
    case None
    then show ?thesis by (simp add: fetch_image_def body)
  next
    case (Some a)
    with assms(2) have "fetch_image_body v (r, s, p, sl, c) = Inr a"
      unfolding cache_ok_def by blast
    with body have "a = ?res" by simp
    with Some show ?thesis by (simp add: fetch_image_def)
  qed
  have "?res = []" if "\<forall>h \<in> set (headers (container v)). \<not> ?P h"
  proof -
    have "filter (\<lambda>i. ?P (headers (container v) ! i)) [0..<length (data_v v)] = []"
      using that assms(1) by (auto simp: filter_empty_conv)
    then show ?thesis by simp
  qed
  with first show ?thesis by simp
qed

theorem fetch_image_exact_witness:
  "length (headers (container ex_viewer)) = length (data_v ex_viewer) \<and> cache_ok ex_viewer \<and>
   fst (fetch_image ex_viewer (0, 0, 0, 1, 0)) =
     Inr [[[[[8, 6], [7, 5]]]], [[[[20, 18], [19, 17]]]]] \<and>
   list_all (\<lambda>h. \<not> (hdr_phase h = 0 \<and> hdr_set h = 0 \<and> hdr_repetition h = 0 \<and>
                    hdr_slice h = 7 \<and> hdr_contrast h = 0))
     (headers (container ex_viewer)) \<and>
   fst (fetch_image ex_viewer (0, 0, 0, 7, 0)) = Inr []"
proof -
  have h1: "length (headers (container ex_viewer)) = length (data_v ex_viewer)"
    by (simp add: ex_fields ex_data ex_container_def)
  have h2: "cache_ok ex_viewer"
    by (simp add: cache_ok_def ex_fields)
  have none: "\<forall>h \<in> set (headers (container ex_viewer)).
      \<not> (hdr_phase h = 0 \<and> hdr_set h = 0 \<and> hdr_repetition h = 0 \<and>
         hdr_slice h = 7 \<and> hdr_contrast h = 0)"
    by (simp add: ex_fields ex_container_def ex_header_def)
  have a: "fst (fetch_image ex_viewer (0, 0, 0, 1, 0)) =
     Inr [[[[[8, 6], [7, 5]]]], [[[[20, 18], [19, 17]]]]]"
    using fetch_image_exact [OF h1 h2, of 0 0 0 1 0]
    by (simp add: ex_data ex_fields ex_container_def ex_header_def)
  have b: "fst (fetch_image ex_viewer (0, 0, 0, 7, 0)) = Inr []"
    using fetch_image_exact [OF h1 h2, of 0 0 0 7 0] none by blast
  from none have "list_all (\<lambda>h. \<not> (hdr_phase h = 0 \<and> hdr_set h = 0 \<and> hdr_repetition h = 0 \<and>
                    hdr_slice h = 7 \<and> hdr_contrast h = 0))
     (headers (container ex_viewer))"
    unfolding list_all_iff .
  with h1 h2 a b show ?thesis by blast
qed

text \<open>
  Claim C2. When the headers and the data have the same number of entries, a call of
  \<^verbatim>\<open>fetch_image\<close> succeeds and leaves its result in the table under the key. A second
  call with the same key returns the same array and leaves the viewer as it is: the body
  does not run again and \<open>scans\<close> keeps its value. A call with a key that is not in the
  table runs the body once (\<open>scans\<close> goes up by one) and returns what the body returns;
  a call with a key that is in the table returns the entry and changes nothing. The
  table is indexed by the five coordinates alone: a call touches no entry of another key,
  and the result for a key is the same after a rotation, a flip, a window or level input,
  or a mouse move.
\<close>

theorem fetch_image_memoized:
  assumes "length (headers (container v)) = length (data_v v)"
  shows "(\<exists>a. fst (fetch_image v key) = Inr a \<and>
               cache (snd (fetch_image v key)) key = Some a \<and>
               fetch_image (snd (fetch_image v key)) key = (Inr a, snd (fetch_image v key)) \<and>
               scans (snd (fetch_image (snd (fetch_image v key)) key)) =
                 scans (snd (fetch_image v key)) \<and>
               (cache v key = None \<longrightarrow>
                  fetch_image_body v key = Inr a \<and>
                  scans (snd (fetch_image v key)) = scans v + 1)) \<and>
         (\<forall>b. cache v key = Some b \<longrightarrow> fetch_image v key = (Inr b, v)) \<and>
         (\<forall>k. k \<noteq> key \<longrightarrow> cache (snd (fetch_image v key)) k = cache v k) \<and>
         fst (fetch_image (snd (rotate_cw v)) key) = fst (fetch_image v key) \<and>
         fst (fetch_image (snd (rotate_ccw v)) key) = fst (fetch_image v key) \<and>
         fst (fetch_image (snd (flip_h v)) key) = fst (fetch_image v key) \<and>
         fst (fetch_image (snd (flip_v v)) key) = fst (fetch_image v key) \<and>
         fst (fetch_image (snd (window_input x v)) key) = fst (fetch_image v key) \<and>
         fst (fetch_image (snd (level_input x v)) key) = fst (fetch_image v key) \<and>
         fst (fetch_image (snd (mouseMoveEvent pos v)) key) = fst (fetch_image v key)"
proof -
  from fetch_image_twice [OF assms, of key] obtain a where
    a: "fst (fetch_image v key) = Inr a"
       "fetch_image (snd (fetch_image v key)) key = (Inr a, snd (fetch_image v key))"
    by blast
  have st: "cache (snd (fetch_image v key)) key = Some a"
    using a(1) by (cases "cache v key"; cases "fetch_image_body v key")
                  (simp_all add: fetch_image_def)
  have miss: "fetch_image_body v key = Inr a \<and> scans (snd (fetch_image v key)) = scans v + 1"
    if "cache v key = None"
    using a(1) that by (cases "fetch_image_body v key") (simp_all add: fetch_image_def)
  have hit: "fetch_image v key = (Inr b, v)" if "cache v key = Some b" for b
    using that by (simp add: fetch_image_def)
  have other: "cache (snd (fetch_image v key)) k = cache v k" if "k \<noteq> key" for k
    using that by (cases "cache v key"; cases "fetch_image_body v key")
                  (simp_all add: fetch_image_def)
  from a st miss have first: "\<exists>a. fst (fetch_image v key) = Inr a \<and>
               cache (snd (fetch_image v key)) key = Some a \<and>
               fetch_image (snd (fetch_image v key)) key = (Inr a, snd (fetch_image v key)) \<and>
               scans (snd (fetch_image (snd (fetch_image v key)) key)) =
                 scans (snd (fetch_image v key)) \<and>
               (cache v key = None \<longrightarrow>
                  fetch_image_body v key = Inr a \<and>
                  scans (snd (fetch_image v key)) = scans v + 1)"
    by simp
  have tr: "fst (fetch_image (snd (rotate_cw v)) key) = fst (fetch_image v key)"
    "fst (fetch_image (snd (rotate_ccw v)) key) = fst (fetch_image v key)"
    "fst (fetch_image (snd (flip_h v)) key) = fst (fetch_image v key)"
    "fst (fetch_image (snd (flip_v v)) key) = fst (fetch_image v key)"
    "fst (fetch_image (snd (window_input x v)) key) = fst (fetch_image v key)"
    "fst (fetch_image (snd (level_input x v)) key) = fst (fetch_image v key)"
    "fst (fetch_image (snd (mouseMoveEvent pos v)) key) = fst (fetch_image v key)"
    by (simp_all only: same_index_fetch [OF rotate_cw_same] same_index_fetch [OF rotate_ccw_same]
        same_index_fetch [OF flip_h_same] same_index_fetch [OF flip_v_same]
        same_index_fetch [OF window_input_same] same_index_fetch [OF level_input_same]
        same_index_fetch [OF mouseMoveEvent_same])
  from first hit other tr show ?thesis by blast
qed

theorem fetch_image_memoized_witness:
  "length (headers (container ex_viewer)) = length (data_v ex_viewer) \<and>
   cache ex_viewer (0, 0, 0, 1, 0) = None \<and>
   fst (fetch_image ex_viewer (0, 0, 0, 1, 0)) =
     Inr [[[[[8, 6], [7, 5]]]], [[[[20, 18], [19, 17]]]]] \<and>
   fetch_image_body ex_viewer (0, 0, 0, 1, 0) =
     Inr [[[[[8, 6], [7, 5]]]], [[[[20, 18], [19, 17]]]]] \<and>
   cache (snd (fetch_image ex_viewer (0, 0, 0, 1, 0))) (0, 0, 0, 1, 0) =
     Some [[[[[8, 6], [7, 5]]]], [[[[20, 18], [19, 17]]]]] \<and>
   cache (snd (fetch_image ex_viewer (0, 0, 0, 1, 0))) (0, 0, 0, 2, 0) = None \<and>
   scans ex_viewer = 0 \<and>
   scans (snd (fetch_image ex_viewer (0, 0, 0, 1, 0))) = 1 \<and>
   fst (fetch_image (snd (fetch_image ex_viewer (0, 0, 0, 1, 0))) (0, 0, 0, 1, 0)) =
     Inr [[[[[8, 6], [7, 5]]]], [[[[20, 18], [19, 17]]]]] \<and>
   scans (snd (fetch_image (snd (fetch_image ex_viewer (0, 0, 0, 1, 0))) (0, 0, 0, 1, 0))) = 1 \<and>
   fst (fetch_image (snd (rotate_cw ex_viewer)) (0, 0, 0, 1, 0)) =
     Inr [[[[[8, 6], [7, 5]]]], [[[[20, 18], [19, 17]]]]]"
proof -
  let ?k = "(0, 0, 0, 1, 0) :: coords"
  let ?a = "[[[[[8, 6], [7, 5]]]], [[[[20, 18], [19, 17]]]]] :: real array5"
  have h: "length (headers (container ex_viewer)) = length (data_v ex_viewer)"
    by (simp add: ex_fields ex_data ex_container_def)
  have c: "cache ex_viewer ?k = None" "scans ex_viewer = 0" by (simp_all add: ex_fields)
  note t = fetch_image_memoized [OF h, of ?k]
  from t ex_fetch c(1) have
    s: "cache (snd (fetch_image ex_viewer ?k)) ?k = Some ?a"
    and b: "fetch_image_body ex_viewer ?k = Inr ?a"
    and i: "scans (snd (fetch_image ex_viewer ?k)) = scans ex_viewer + 1"
    and f: "fetch_image (snd (fetch_image ex_viewer ?k)) ?k = (Inr ?a, snd (fetch_image ex_viewer ?k))"
    by auto
  have ne: "(0, 0, 0, 2, 0) \<noteq> ?k" by simp
  from t ne have "cache (snd (fetch_image ex_viewer ?k)) (0, 0, 0, 2, 0) =
      cache ex_viewer (0, 0, 0, 2, 0)" by blast
  then have o: "cache (snd (fetch_image ex_viewer ?k)) (0, 0, 0, 2, 0) = None"
    by (simp add: ex_fields)
  from t ex_fetch have r: "fst (fetch_image (snd (rotate_cw ex_viewer)) ?k) = Inr ?a"
    by simp
  from h c s b i f o r ex_fetch show ?thesis by simp
qed

text \<open>
  Claim C3. In a viewer whose range is the maximum minus the minimum, \<^verbatim>\<open>window_level\<close>
  returns the pair of level times range, minus and plus half the window times range, plus
  the minimum.
\<close>

theorem window_level_formula:
  assumes "range_v v = max_v v - min_v v"
  shows "window_level v =
           (level v * (max_v v - min_v v) - window v / 2 * (max_v v - min_v v) + min_v v,
            level v * (max_v v - min_v v) + window v / 2 * (max_v v - min_v v) + min_v v)"
  using assms by (simp add: window_level_def)

theorem window_level_formula_witness:
  "range_v (ex_viewer\<lparr>min_v := 0, max_v := 100, range_v := 100, window := 1 / 2, level := 1 / 2\<rparr>) =
     max_v (ex_viewer\<lparr>min_v := 0, max_v := 100, range_v := 100, window := 1 / 2, level := 1 / 2\<rparr>) -
     min_v (ex_viewer\<lparr>min_v := 0, max_v := 100, range_v := 100, window := 1 / 2, level := 1 / 2\<rparr>) \<and>
   window_level (ex_viewer\<lparr>min_v := 0, max_v := 100, range_v := 100, window := 1 / 2, level := 1 / 2\<rparr>) =
     (25, 75)"
proof -
  let ?v = "ex_viewer\<lparr>min_v := 0, max_v := 100, range_v := 100, window := 1 / 2, level := 1 / 2\<rparr>"
  have h: "range_v ?v = max_v ?v - min_v ?v" by (simp add: Fin_simps)
  from window_level_formula [OF h] have "window_level ?v = (25, 75)" by (simp add: Fin_simps)
  with h show ?thesis by blast
qed

text \<open>
  Claim C4, at a failing input. The Slice axis of the small data set has cardinality 3, so
  its spin box has the maximum 2. With the axis selected, a click starts the timer; a tick
  at value 1 sets the value 0: the modulus is the maximum of the spin box, not the
  cardinality, and slice 2 is never shown. On the Instance axis, of cardinality 2, a tick
  leaves the value 0.
\<close>

theorem increment_skips_last:
  "cardinality (map hdr_slice (headers (container ex_tick))) = Inr 3 \<and>
   maximum (selected ex_tick Slice) = 2 \<and>
   value_sb (selected ex_tick Slice) = 1 \<and>
   timer (animate_frames ex_tick) = Some \<lparr>interval = 100, dimName = Slice\<rparr> \<and>
   value_sb (selected (snd (timeout (animate_frames ex_tick))) Slice) = 0 \<and>
   maximum (selected ex_viewer Instance) = 1 \<and>
   value_sb (selected ex_viewer Instance) = 0 \<and>
   value_sb (selected (snd (increment Instance ex_viewer)) Instance) = 0"
proof -
  have t: "timer (animate_frames ex_tick) = Some \<lparr>interval = 100, dimName = Slice\<rparr>"
    by (simp add: animate_frames_def Let_def ex_tick_fields ex_spinbox_def)
  have m: "maximum (selected (animate_frames ex_tick) Slice) \<noteq> 0"
    by (simp add: animate_frames_selected ex_tick_fields ex_spinbox_def)
  have "value_sb (selected (snd (timeout (animate_frames ex_tick))) Slice) = 0"
    by (simp add: timeout_def t increment_value [OF m])
       (simp add: animate_frames_selected ex_tick_fields ex_spinbox_def)
  moreover have "value_sb (selected (snd (increment Instance ex_viewer)) Instance) = 0"
    by (simp add: increment_value ex_fields ex_spinbox_def ex_maximum_def)
  moreover have "cardinality (map hdr_slice (headers (container ex_tick))) = Inr 3"
    by (simp add: ex_tick_fields ex_headers cardinality_def)
  ultimately show ?thesis
    using t by (simp add: ex_tick_fields ex_fields ex_spinbox_def ex_maximum_def)
qed

text \<open>
  Claim C5. The pick raises \<^verbatim>\<open>IndexError\<close> when the instance is not below the number of
  matches, and when the channel is not below the number of channels of the picked match;
  on the empty match set it raises for every instance and channel. \<^verbatim>\<open>current_frame\<close>
  passes the exception on.
\<close>

theorem pick_out_of_range:
  "(int (length ms) \<le> inst \<longrightarrow> pick ms inst ch = Inl IndexError) \<and>
   (\<forall>rec. getitem ms inst = Inr rec \<and> int (length rec) \<le> ch \<longrightarrow>
      pick ms inst ch = Inl IndexError) \<and>
   pick [] inst ch = Inl IndexError \<and>
   (\<forall>arr. fst (fetch_image v (repetition v, set_v v, phase v, slice v, contrast v)) = Inr arr \<and>
      pick arr (frame v) (coil v) = Inl IndexError \<longrightarrow>
      fst (current_frame v) = Inl IndexError)"
  by (auto simp: pick_def bind_err_def getitem_beyond current_frame_fst getitem_def)

theorem pick_out_of_range_witness:
  "int (length [[[[[8, 6], [7, 5 :: real]]]], [[[[20, 18], [19, 17]]]]]) \<le> 2 \<and>
   pick [[[[[8, 6], [7, 5 :: real]]]], [[[[20, 18], [19, 17]]]]] 2 0 = Inl IndexError \<and>
   getitem [[[[[8, 6], [7, 5 :: real]]]], [[[[20, 18], [19, 17]]]]] 1 = Inr [[[[20, 18], [19, 17]]]] \<and>
   int (length [[[[20, 18], [19, 17 :: real]]]]) \<le> 1 \<and>
   pick [[[[[8, 6], [7, 5 :: real]]]], [[[[20, 18], [19, 17]]]]] 1 1 = Inl IndexError \<and>
   fst (fetch_image sp_viewer
          (repetition sp_viewer, set_v sp_viewer, phase sp_viewer, slice sp_viewer,
           contrast sp_viewer)) = Inr [] \<and>
   pick ([] :: real array5) (frame sp_viewer) (coil sp_viewer) = Inl IndexError \<and>
   fst (current_frame sp_viewer) = Inl IndexError"
proof -
  let ?ms = "[[[[[8, 6], [7, 5 :: real]]]], [[[[20, 18], [19, 17]]]]]"
  note t = pick_out_of_range [of ?ms 2 0 sp_viewer]
  note u = pick_out_of_range [of ?ms 1 1 sp_viewer]
  have f: "fst (fetch_image sp_viewer
          (repetition sp_viewer, set_v sp_viewer, phase sp_viewer, slice sp_viewer,
           contrast sp_viewer)) = Inr []"
    by (simp add: sp_sel sp_fetch)
  have g: "getitem ?ms 1 = Inr [[[[20, 18], [19, 17]]]]"
    by (simp add: getitem_def)
  have p: "pick ([] :: real array5) (frame sp_viewer) (coil sp_viewer) = Inl IndexError"
    using pick_out_of_range [of "[] :: real array5" "frame sp_viewer" "coil sp_viewer" sp_viewer]
    by blast
  have c: "fst (current_frame sp_viewer) = Inl IndexError"
    using t f p by blast
  have a: "pick ?ms 2 0 = Inl IndexError"
    by (rule t [THEN conjunct1, THEN mp]) simp
  have b: "pick ?ms 1 1 = Inl IndexError"
    using u [THEN conjunct2, THEN conjunct1, THEN spec, of "[[[[20, 18], [19, 17]]]]"] g
    by simp
  from a b c f g p show ?thesis by simp
qed

text \<open>
  Claim C6, as the code has it. A move event of a drag (one that finds a recorded
  position) leaves the window within 0 and 2 and the level within 0 and 1, and the colour
  limits it then sets on the displayed image are those of the clamped window and level.
  Window and level are numbers here: the \<^verbatim>\<open>nan\<close> that a zero range gives passes the
  comparisons of the source unchanged.
  The claim as stated also covers the two spin boxes; \<^verbatim>\<open>window_input\<close> and
  \<^verbatim>\<open>level_input\<close> store the quotient as it is.
\<close>

theorem mouse_drag_clamps:
  assumes "mloc v = Some m" and "window v \<noteq> NaN" and "level v \<noteq> NaN"
  shows "0 \<le> window (snd (mouseMoveEvent pos v)) \<and> window (snd (mouseMoveEvent pos v)) \<le> 2 \<and>
         0 \<le> level (snd (mouseMoveEvent pos v)) \<and> level (snd (mouseMoveEvent pos v)) \<le> 1 \<and>
         (\<forall>im lo hi. image_v v = Some (im, lo, hi) \<longrightarrow>
            fst (mouseMoveEvent pos v) = Inr () \<and>
            image_v (snd (mouseMoveEvent pos v)) =
              Some (im, window_level (snd (mouseMoveEvent pos v))))"
proof -
  obtain mx my where m: "m = (mx, my)" by (cases m)
  obtain newx newy where pos: "pos = (newx, newy)" by (cases pos)
  let ?w = "window v - Fin ((newx - mx) * 0.01)"
  let ?l = "level v - Fin ((newy - my) * 0.01)"
  let ?v = "v\<lparr>window := clip 0 2 ?w, level := clip 0 1 ?l, mloc := Some (newx, newy)\<rparr>"
  have ev: "mouseMoveEvent pos v = update_wl ?v"
    unfolding pos by (rule mouseMoveEvent_drag [OF assms(1) [unfolded m]])
  have wl: "window (snd (mouseMoveEvent pos v)) = clip 0 2 ?w"
    "level (snd (mouseMoveEvent pos v)) = clip 0 1 ?l"
    by (simp_all add: ev update_wl_keeps)
  have num: "?w \<noteq> NaN" "?l \<noteq> NaN"
    using assms(2,3) by (simp_all add: minus_Fin_NaN)
  have img: "fst (mouseMoveEvent pos v) = Inr () \<and>
      image_v (snd (mouseMoveEvent pos v)) = Some (im, window_level (snd (mouseMoveEvent pos v)))"
    if "image_v v = Some (im, lo, hi)" for im lo hi
  proof -
    from that have "image_v ?v = Some (im, lo, hi)" by simp
    from update_wl_image [OF this] show ?thesis
      by (simp add: ev window_level_image)
  qed
  show ?thesis
    unfolding wl using img clip_window [OF num(1)] clip_level [OF num(2)] by blast
qed

theorem mouse_drag_clamps_witness:
  "mloc (ex_viewer\<lparr>mloc := Some (0, 0)\<rparr>) = Some (0, 0) \<and>
   window (ex_viewer\<lparr>mloc := Some (0, 0)\<rparr>) \<noteq> NaN \<and>
   level (ex_viewer\<lparr>mloc := Some (0, 0)\<rparr>) \<noteq> NaN \<and>
   window (snd (mouseMoveEvent (300, - 200) (ex_viewer\<lparr>mloc := Some (0, 0)\<rparr>))) = 0 \<and>
   level (snd (mouseMoveEvent (300, - 200) (ex_viewer\<lparr>mloc := Some (0, 0)\<rparr>))) = 1 \<and>
   image_v (ex_viewer\<lparr>mloc := Some (0, 0)\<rparr>) = Some ([[4, 2], [3, 1]], 103 / 50, 247 / 50) \<and>
   image_v (snd (mouseMoveEvent (300, - 200) (ex_viewer\<lparr>mloc := Some (0, 0)\<rparr>))) =
     Some ([[4, 2], [3, 1]], 4, 4)"
proof -
  let ?v = "ex_viewer\<lparr>mloc := Some (0, 0)\<rparr>"
  have h: "mloc ?v = Some (0, 0)" by simp
  have n: "window ?v \<noteq> NaN" "level ?v \<noteq> NaN" by (simp_all add: ex_fields Fin_simps)
  have i: "image_v ?v = Some ([[4, 2], [3, 1]], 103 / 50, 247 / 50)" by (simp add: ex_fields)
  note t = mouse_drag_clamps [OF h n, of "(300, - 200)"]
  have w: "window (snd (mouseMoveEvent (300, - 200) ?v)) = 0"
    by (simp add: mouseMoveEvent_drag [OF h] update_wl_keeps ex_fields Fin_simps clip_Fin)
  have l: "level (snd (mouseMoveEvent (300, - 200) ?v)) = 1"
    by (simp add: mouseMoveEvent_drag [OF h] update_wl_keeps ex_fields Fin_simps clip_Fin)
  have r: "range_v (snd (mouseMoveEvent (300, - 200) ?v)) = 3"
    "min_v (snd (mouseMoveEvent (300, - 200) ?v)) = 1"
    by (simp_all add: mouseMoveEvent_drag [OF h] update_wl_keeps ex_fields)
  from t i have "image_v (snd (mouseMoveEvent (300, - 200) ?v)) =
     Some ([[4, 2], [3, 1]], window_level (snd (mouseMoveEvent (300, - 200) ?v)))"
    by blast
  then have "image_v (snd (mouseMoveEvent (300, - 200) ?v)) = Some ([[4, 2], [3, 1]], 4, 4)"
    by (simp add: window_level_def w l r Fin_simps)
  with h n w l i show ?thesis by blast
qed

theorem spinbox_input_unclamped:
  "fst (window_input 15 ex_viewer) = Inr () \<and>
   window (snd (window_input 15 ex_viewer)) = 5 \<and>
   fst (level_input (- 3) ex_viewer) = Inr () \<and>
   level (snd (level_input (- 3) ex_viewer)) = - 1"
  by (simp add: window_input_def level_input_def ex_fields update_wl_def Fin_simps)

text \<open>
  Claim C7, as the code has it. With no rotation and no flip selected, the current frame
  is not the stored slice itself but \<open>orient\<close> of it: the constructor has rotated the
  stored data by a quarter turn and flipped its last axis, so the entry in row \<open>a\<close>,
  column \<open>b\<close> of the frame is the stored entry in row \<open>R - 1 - b\<close>, column \<open>C - 1 - a\<close>
  (for complex data, its magnitude). The pick itself applies no further transform.
\<close>

theorem current_frame_orientation:
  assumes "data_v v = load_data (container v)" and "cache_ok v"
    and "nrot v mod 4 = 0" and "\<not> fliph v" and "\<not> flipv v"
  shows "fst (current_frame v) =
          (case data (container v) of
             RealData d \<Rightarrow>
               map_sum id orient
                 (bind_err (mask_select (header_mask (headers (container v))
                      (repetition v, set_v v, phase v, slice v, contrast v)) d)
                    (\<lambda>ms. pick ms (frame v) (coil v)))
           | ComplexData d \<Rightarrow>
               map_sum id (\<lambda>m. orient (map (map (\<lambda>(re, im). cmod (Complex re im))) m))
                 (bind_err (mask_select (header_mask (headers (container v))
                      (repetition v, set_v v, phase v, slice v, contrast v)) d)
                    (\<lambda>ms. pick ms (frame v) (coil v)))) \<and>
         (\<forall>m C a b. (\<forall>row \<in> set m. length row = C) \<and> a < C \<and> b < length m \<longrightarrow>
            orient m ! a ! b = (m :: real list list) ! (length m - 1 - b) ! (C - 1 - a))"
proof -
  let ?key = "(repetition v, set_v v, phase v, slice v, contrast v)"
  let ?idx = "header_mask (headers (container v)) ?key"
  have cf: "fst (current_frame v) =
      bind_err (mask_select ?idx (load_data (container v))) (\<lambda>arr. pick arr (frame v) (coil v))"
    by (simp add: current_frame_fst fetch_image_ok [OF assms(2)] fetch_image_body_def
        geometry_identity [OF assms(3-5)] bind_err_Inr assms(1))
  have "fst (current_frame v) =
          (case data (container v) of
             RealData d \<Rightarrow>
               map_sum id orient
                 (bind_err (mask_select ?idx d) (\<lambda>ms. pick ms (frame v) (coil v)))
           | ComplexData d \<Rightarrow>
               map_sum id (\<lambda>m. orient (map (map (\<lambda>(re, im). cmod (Complex re im))) m))
                 (bind_err (mask_select ?idx d) (\<lambda>ms. pick ms (frame v) (coil v))))"
    unfolding cf
    by (cases "data (container v)")
       (simp_all add: load_data_def mask_select_map bind_err_map_sum pick_map map_sum_bind_err)
  moreover have "\<forall>m C a b. (\<forall>row \<in> set m. length row = C) \<and> a < C \<and> b < length m \<longrightarrow>
            orient m ! a ! b = (m :: real list list) ! (length m - 1 - b) ! (C - 1 - a)"
    using orient_nth by blast
  ultimately show ?thesis by blast
qed

theorem current_frame_orientation_witness:
  "data_v ex_viewer = load_data (container ex_viewer) \<and> cache_ok ex_viewer \<and>
   nrot ex_viewer mod 4 = 0 \<and> \<not> fliph ex_viewer \<and> \<not> flipv ex_viewer \<and>
   data (container ex_viewer) = RealData ex_raw \<and>
   fst (current_frame ex_viewer) = Inr (orient [[1, 2], [3, 4]]) \<and>
   list_all (\<lambda>row. length row = 2) [[1, 2], [3, 4 :: real]] \<and>
   orient [[1, 2], [3, 4 :: real]] ! 0 ! 1 = [[1, 2], [3, 4]] ! 0 ! 1 \<and>
   orient [[1, 2], [3, 4 :: real]] ! 0 ! 0 = [[1, 2], [3, 4]] ! 1 ! 1"
proof -
  have h: "data_v ex_viewer = load_data (container ex_viewer)" "cache_ok ex_viewer"
    "nrot ex_viewer mod 4 = 0" "\<not> fliph ex_viewer" "\<not> flipv ex_viewer"
    by (simp_all add: ex_viewer_def cache_ok_def)
  have d: "data (container ex_viewer) = RealData ex_raw"
    by (simp add: ex_fields ex_container_def)
  note t = current_frame_orientation [OF h]
  from t [THEN conjunct1] have f: "fst (current_frame ex_viewer) = Inr (orient [[1, 2], [3, 4]])"
    by (simp add: d ex_sel ex_stored)
  have r: "\<forall>row \<in> set [[1, 2], [3, 4 :: real]]. length row = 2" by simp
  from t [THEN conjunct2, THEN spec, THEN spec, THEN spec, THEN spec,
      of "[[1, 2], [3, 4]]" 2 0 1] r
  have o1: "orient [[1, 2], [3, 4 :: real]] ! 0 ! 1 = [[1, 2], [3, 4]] ! 0 ! 1" by simp
  from t [THEN conjunct2, THEN spec, THEN spec, THEN spec, THEN spec,
      of "[[1, 2], [3, 4]]" 2 0 0] r
  have o2: "orient [[1, 2], [3, 4 :: real]] ! 0 ! 0 = [[1, 2], [3, 4]] ! 1 ! 1" by simp
  from h d f o1 o2 show ?thesis by simp
qed

theorem frame_not_in_storage_orientation:
  "nrot ex_viewer = 0 \<and> \<not> fliph ex_viewer \<and> \<not> flipv ex_viewer \<and>
   data (container ex_viewer) = RealData ex_raw \<and>
   data_v ex_viewer = load_data (container ex_viewer) \<and>
   bind_err (mask_select (header_mask (headers (container ex_viewer))
        (repetition ex_viewer, set_v ex_viewer, phase ex_viewer, slice ex_viewer,
         contrast ex_viewer)) ex_raw)
     (\<lambda>ms. pick ms (frame ex_viewer) (coil ex_viewer)) = Inr [[1, 2], [3, 4]] \<and>
   fst (current_frame ex_viewer) = Inr [[4, 2], [3, 1]]"
  by (simp add: ex_sel ex_stored ex_frame) (simp add: ex_viewer_def ex_container_def)

text \<open>
  Claim C8. From every state of the viewer, four clicks on the same rotation button, and
  two clicks on the same flip button, lead to a state whose current frame is the frame of
  the starting state (or the same exception, where the pick fails).
\<close>

theorem geometric_round_trip:
  "fst (current_frame (snd (rotate_cw (snd (rotate_cw (snd (rotate_cw (snd (rotate_cw v))))))))) =
     fst (current_frame v) \<and>
   fst (current_frame (snd (rotate_ccw (snd (rotate_ccw (snd (rotate_ccw (snd (rotate_ccw v))))))))) =
     fst (current_frame v) \<and>
   fst (current_frame (snd (flip_h (snd (flip_h v))))) = fst (current_frame v) \<and>
   fst (current_frame (snd (flip_v (snd (flip_v v))))) = fst (current_frame v)"
proof (intro conjI)
  show "fst (current_frame (snd (rotate_cw (snd (rotate_cw (snd (rotate_cw (snd (rotate_cw v))))))))) =
     fst (current_frame v)"
    by (rule frame_same [OF four_times_same [of rotate_cw, OF rotate_cw_same]])
       (simp_all add: rotate_cw_keeps four_cw)
  show "fst (current_frame (snd (rotate_ccw (snd (rotate_ccw (snd (rotate_ccw (snd (rotate_ccw v))))))))) =
     fst (current_frame v)"
    by (rule frame_same [OF four_times_same [of rotate_ccw, OF rotate_ccw_same]])
       (simp_all add: rotate_ccw_keeps four_ccw)
  show "fst (current_frame (snd (flip_h (snd (flip_h v))))) = fst (current_frame v)"
    by (rule frame_same [OF twice_same [of flip_h, OF flip_h_same]])
       (simp_all add: flip_h_keeps)
  show "fst (current_frame (snd (flip_v (snd (flip_v v))))) = fst (current_frame v)"
    by (rule frame_same [OF twice_same [of flip_v, OF flip_v_same]])
       (simp_all add: flip_v_keeps)
qed

text \<open>
  Claim C9, at a failing input. The sparse data set has two images, at repetition 0 and
  slice 0 and at repetition 1 and slice 1: no coordinate tuple has more than one image,
  so the Instance axis has cardinality one. Line 42 computes \<^verbatim>\<open>nimg\<close> as 2 divided by
  the product 4 of the cardinalities of the header axes, truncated: 0. The spin box of the
  Instance axis gets the maximum -1, which neither the test \<^verbatim>\<open>nimg == 1\<close> of line 184
  nor the test \<^verbatim>\<open>maximum() == 0\<close> of lines 210 and 573 meets: after the constructor
  the button and the spin box of the axis are enabled and visible, the axis is the
  selected one and the animation button is enabled. A click on the animation button
  starts a timer on the Instance axis, leaves the button checked and logs nothing, and a
  tick of the timer changes nothing.
\<close>

theorem sparse_instance_axis_animates:
  "fetch_image_body sp_built (0, 0, 0, 0, 0) = Inr [[[[[4, 2], [3, 1]]]]] \<and>
   fetch_image_body sp_built (1, 0, 0, 1, 0) = Inr [[[[[8, 6], [7, 5]]]]] \<and>
   fetch_image_body sp_built (0, 0, 0, 1, 0) = Inr [] \<and>
   fetch_image_body sp_built (1, 0, 0, 0, 0) = Inr [] \<and>
   count_axes (container sp_built) =
     Inr \<lparr>nimg = 0, nrep = 2, nset = 1, nphase = 1, nslice = 2, ncontrast = 1\<rparr> \<and>
   fst (init_controls sp_viewer) = Inr () \<and>
   selected sp_built Instance =
     \<lparr>enabled = True, visible = True, minimum = - 1, maximum = - 1, value_sb = - 1\<rparr> \<and>
   dim_buttons sp_built Instance = \<lparr>enabled = True, visible = True\<rparr> \<and>
   checkedButton sp_built = Instance \<and>
   animate sp_built =
     \<lparr>enabled = True, visible = True, checked = False, icon_b = SP_MediaPlay\<rparr> \<and>
   timer sp_built = None \<and>
   timer (animate_frames sp_click) = Some \<lparr>interval = 100, dimName = Instance\<rparr> \<and>
   checked (animate (animate_frames sp_click)) \<and>
   log_v (animate_frames sp_click) = [] \<and>
   timeout (animate_frames sp_click) = (Inr (), animate_frames sp_click)"
proof -
  note b = sp_body [OF sp_built_controls(9,10)]
  have c: "count_axes (container sp_built) =
     Inr \<lparr>nimg = 0, nrep = 2, nset = 1, nphase = 1, nslice = 2, ncontrast = 1\<rparr>"
    by (simp add: sp_built_controls(9) sp_counts)
  from b c sp_built_controls(1-6) sp_click_starts show ?thesis by simp
qed

text \<open>
  Claim C10. The two input handlers and the contrast defaults of the constructor divide
  by the range without testing it: the handlers store the quotient of the input and the
  range whatever the range is, and raise no division error. With range 0 the stored
  window or level is an infinity or \<^verbatim>\<open>nan\<close>, and the colour limits of the displayed
  image become \<^verbatim>\<open>nan\<close>; with a range that is a non-zero number the stored value is the
  quotient, a number. The defaults complete on every non-empty initial frame; when its
  largest and smallest pixel are equal the range is 0, the window is \<^verbatim>\<open>nan\<close> and the
  level is an infinity (\<^verbatim>\<open>nan\<close> when the pixels are 0); when the largest is greater, both
  are the numbers of lines 197 and 198.
\<close>

theorem range_division_unguarded:
  "window (snd (window_input x v)) = Fin x / range_v v \<and>
   level (snd (level_input x v)) = Fin x / range_v v \<and>
   fst (window_input x v) \<noteq> Inl ZeroDivisionError \<and>
   fst (level_input x v) \<noteq> Inl ZeroDivisionError \<and>
   (range_v v = 0 \<longrightarrow>
      \<not> isfinite (window (snd (window_input x v))) \<and>
      \<not> isfinite (level (snd (level_input x v))) \<and>
      (\<forall>im lo hi. image_v v = Some (im, lo, hi) \<longrightarrow>
         fst (window_input x v) = Inr () \<and>
         image_v (snd (window_input x v)) = Some (im, NaN, NaN) \<and>
         fst (level_input x v) = Inr () \<and>
         image_v (snd (level_input x v)) = Some (im, NaN, NaN))) \<and>
   (\<forall>r. range_v v = Fin r \<and> r \<noteq> 0 \<longrightarrow>
      window (snd (window_input x v)) = Fin (x / r) \<and>
      level (snd (level_input x v)) = Fin (x / r)) \<and>
   (\<forall>im lo hi. fst (current_frame v) = Inr im \<and>
        np_min (concat im) = Inr lo \<and> np_max (concat im) = Inr hi \<longrightarrow>
        fst (init_window_level v) = Inr () \<and>
        range_v (snd (init_window_level v)) = Fin (hi - lo) \<and>
        (hi = lo \<longrightarrow>
           window (snd (init_window_level v)) = NaN \<and>
           level (snd (init_window_level v)) = inf_of lo) \<and>
        (lo < hi \<longrightarrow>
           window (snd (init_window_level v)) =
             Fin ((percentile (concat im) 98 - percentile (concat im) 2) / (hi - lo)) \<and>
           level (snd (init_window_level v)) =
             Fin ((percentile (concat im) 98 + percentile (concat im) 2) / 2 / (hi - lo))))"
proof -
  have w: "window (snd (window_input x v)) = Fin x / range_v v"
    and l: "level (snd (level_input x v)) = Fin x / range_v v"
    by (simp_all add: window_input_def level_input_def update_wl_keeps)
  have e: "fst (window_input x v) \<noteq> Inl ZeroDivisionError"
    "fst (level_input x v) \<noteq> Inl ZeroDivisionError"
    by (simp_all add: window_input_def level_input_def update_wl_def split: option.splits)
  have z: "\<not> isfinite (window (snd (window_input x v))) \<and>
      \<not> isfinite (level (snd (level_input x v))) \<and>
      (\<forall>im lo hi. image_v v = Some (im, lo, hi) \<longrightarrow>
         fst (window_input x v) = Inr () \<and>
         image_v (snd (window_input x v)) = Some (im, NaN, NaN) \<and>
         fst (level_input x v) = Inr () \<and>
         image_v (snd (level_input x v)) = Some (im, NaN, NaN))"
    if r: "range_v v = 0"
  proof -
    have n: "\<not> isfinite (Fin x / range_v v)"
      unfolding r by (rule divide_zero_not_finite)
    have cw: "window_level (v\<lparr>window := Fin x / range_v v\<rparr>) = (NaN, NaN)"
      by (simp add: window_level_def r times_zero_range [OF n [unfolded r]] plus_NaN)
    have cl: "window_level (v\<lparr>level := Fin x / range_v v\<rparr>) = (NaN, NaN)"
      by (simp add: window_level_def r times_zero_level [OF n [unfolded r]] plus_NaN)
    have i: "fst (window_input x v) = Inr () \<and>
         image_v (snd (window_input x v)) = Some (im, NaN, NaN) \<and>
         fst (level_input x v) = Inr () \<and>
         image_v (snd (level_input x v)) = Some (im, NaN, NaN)"
      if "image_v v = Some (im, lo, hi)" for im lo hi
      using that cw cl by (simp add: window_input_def level_input_def update_wl_def)
    from n i show ?thesis unfolding w l by blast
  qed
  have q: "window (snd (window_input x v)) = Fin (x / r) \<and>
      level (snd (level_input x v)) = Fin (x / r)"
    if "range_v v = Fin r \<and> r \<noteq> 0" for r
    unfolding w l using that by (simp add: Fin_arith(4))
  have d: "fst (init_window_level v) = Inr () \<and>
        range_v (snd (init_window_level v)) = Fin (hi - lo) \<and>
        (hi = lo \<longrightarrow>
           window (snd (init_window_level v)) = NaN \<and>
           level (snd (init_window_level v)) = inf_of lo) \<and>
        (lo < hi \<longrightarrow>
           window (snd (init_window_level v)) =
             Fin ((percentile (concat im) 98 - percentile (concat im) 2) / (hi - lo)) \<and>
           level (snd (init_window_level v)) =
             Fin ((percentile (concat im) 98 + percentile (concat im) 2) / 2 / (hi - lo)))"
    if a: "fst (current_frame v) = Inr im \<and>
        np_min (concat im) = Inr lo \<and> np_max (concat im) = Inr hi" for im lo hi
  proof -
    from a have a1: "fst (current_frame v) = Inr im" and a2: "np_min (concat im) = Inr lo"
      and a3: "np_max (concat im) = Inr hi" by blast+
    note t = init_window_level_values [OF a1 a2 a3]
    have flat: "window (snd (init_window_level v)) = NaN \<and>
           level (snd (init_window_level v)) = inf_of lo" if "hi = lo"
    proof -
      from a2 a3 that have "concat im \<noteq> [] \<and> (\<forall>e \<in> set (concat im). e = lo)"
        by (intro constant_frame) simp_all
      then have p: "percentile (concat im) 2 = lo" "percentile (concat im) 98 = lo"
        by (simp_all add: percentile_constant)
      show ?thesis
        unfolding t(2,3) p that
        by (simp add: Fin_simps inf_of_def)
    qed
    have steep: "window (snd (init_window_level v)) =
             Fin ((percentile (concat im) 98 - percentile (concat im) 2) / (hi - lo)) \<and>
           level (snd (init_window_level v)) =
             Fin ((percentile (concat im) 98 + percentile (concat im) 2) / 2 / (hi - lo))"
      if "lo < hi"
      unfolding t(2,3) using that by (simp add: Fin_simps)
    from t(1,4) flat steep show ?thesis by blast
  qed
  from w l e z q d show ?thesis by blast
qed

theorem range_division_unguarded_witness:
  "range_v flat_viewer = 0 \<and>
   image_v flat_viewer = Some ([[7, 7], [7, 7]], NaN, NaN) \<and>
   window (snd (window_input 5 flat_viewer)) = PosInf \<and>
   level (snd (level_input (- 5) flat_viewer)) = NegInf \<and>
   window_input 5 flat_viewer = (Inr (), flat_viewer\<lparr>window := PosInf\<rparr>) \<and>
   level_input (- 5) flat_viewer = (Inr (), flat_viewer\<lparr>level := NegInf\<rparr>) \<and>
   range_v ex_viewer = Fin 3 \<and> (3 :: real) \<noteq> 0 \<and>
   window (snd (window_input 6 ex_viewer)) = 2 \<and>
   level (snd (level_input 6 ex_viewer)) = 2 \<and>
   fst (current_frame flat_viewer) = Inr [[7, 7], [7, 7]] \<and>
   np_min (concat [[7, 7], [7, 7]]) = Inr 7 \<and> np_max (concat [[7, 7], [7, 7]]) = Inr 7 \<and>
   fst (init_window_level flat_viewer) = Inr () \<and>
   range_v (snd (init_window_level flat_viewer)) = 0 \<and>
   window (snd (init_window_level flat_viewer)) = NaN \<and>
   level (snd (init_window_level flat_viewer)) = PosInf \<and>
   fst (current_frame ex_viewer) = Inr [[4, 2], [3, 1]] \<and>
   np_min (concat [[4, 2], [3, 1]]) = Inr 1 \<and> np_max (concat [[4, 2], [3, 1]]) = Inr 4 \<and>
   fst (init_window_level ex_viewer) = Inr () \<and>
   window (snd (init_window_level ex_viewer)) = 24 / 25 \<and>
   level (snd (init_window_level ex_viewer)) = 5 / 6"
proof -
  have r0: "range_v flat_viewer = 0" by (simp add: flat_viewer_def)
  have i0: "image_v flat_viewer = Some ([[7, 7], [7, 7]], NaN, NaN)"
    by (simp add: flat_viewer_def)
  have r3: "range_v ex_viewer = Fin 3 \<and> (3 :: real) \<noteq> 0" by (simp add: ex_fields Fin_simps)
  have m7: "np_min (concat [[7, 7], [7, 7]]) = Inr 7" "np_max (concat [[7, 7], [7, 7]]) = Inr 7"
    by (simp_all add: np_min_def np_max_def)
  have m14: "np_min (concat [[4, 2], [3, 1]]) = Inr 1" "np_max (concat [[4, 2], [3, 1]]) = Inr 4"
    by (simp_all add: np_min_def np_max_def)
  have p: "percentile [4, 2, 3, 1] 2 = 53 / 50" "percentile [4, 2, 3, 1] 98 = 197 / 50"
    by (simp_all add: percentile_def Let_def eval_nat_numeral)
  note f = range_division_unguarded [of 5 flat_viewer]
  note f' = range_division_unguarded [of "- 5" flat_viewer]
  note g = range_division_unguarded [of 6 ex_viewer]
  from f have "window (snd (window_input 5 flat_viewer)) = Fin 5 / range_v flat_viewer"
    by blast
  then have a1: "window (snd (window_input 5 flat_viewer)) = PosInf"
    by (simp add: r0 Fin_simps inf_of_def)
  from f' have "level (snd (level_input (- 5) flat_viewer)) = Fin (- 5) / range_v flat_viewer"
    by blast
  then have a2: "level (snd (level_input (- 5) flat_viewer)) = NegInf"
    by (simp add: r0 Fin_simps inf_of_def)
  from f r0 i0 have "fst (window_input 5 flat_viewer) = Inr () \<and>
      image_v (snd (window_input 5 flat_viewer)) = Some ([[7, 7], [7, 7]], NaN, NaN)"
    by blast
  then have a3: "window_input 5 flat_viewer = (Inr (), flat_viewer\<lparr>window := PosInf\<rparr>)"
    using a1 i0
    by (simp add: window_input_def update_wl_def r0 Fin_simps inf_of_def prod_eq_iff)
  from f' r0 i0 have "fst (level_input (- 5) flat_viewer) = Inr () \<and>
      image_v (snd (level_input (- 5) flat_viewer)) = Some ([[7, 7], [7, 7]], NaN, NaN)"
    by blast
  then have a4: "level_input (- 5) flat_viewer = (Inr (), flat_viewer\<lparr>level := NegInf\<rparr>)"
    using a2 i0
    by (simp add: level_input_def update_wl_def r0 Fin_simps inf_of_def prod_eq_iff)
  from g r3 have "window (snd (window_input 6 ex_viewer)) = Fin (6 / 3) \<and>
      level (snd (level_input 6 ex_viewer)) = Fin (6 / 3)" by blast
  then have b: "window (snd (window_input 6 ex_viewer)) = 2"
    "level (snd (level_input 6 ex_viewer)) = 2" by (simp_all add: Fin_simps)
  from f flat_frame m7 have "fst (init_window_level flat_viewer) = Inr () \<and>
      range_v (snd (init_window_level flat_viewer)) = Fin (7 - 7) \<and>
      window (snd (init_window_level flat_viewer)) = NaN \<and>
      level (snd (init_window_level flat_viewer)) = inf_of 7" by blast
  then have c: "fst (init_window_level flat_viewer) = Inr ()"
    "range_v (snd (init_window_level flat_viewer)) = 0"
    "window (snd (init_window_level flat_viewer)) = NaN"
    "level (snd (init_window_level flat_viewer)) = PosInf"
    by (simp_all add: Fin_simps inf_of_def)
  have "(1 :: real) < 4" by simp
  with g ex_frame m14 have "fst (init_window_level ex_viewer) = Inr () \<and>
      window (snd (init_window_level ex_viewer)) =
        Fin ((percentile (concat [[4, 2], [3, 1]]) 98 - percentile (concat [[4, 2], [3, 1]]) 2)
             / (4 - 1)) \<and>
      level (snd (init_window_level ex_viewer)) =
        Fin ((percentile (concat [[4, 2], [3, 1]]) 98 + percentile (concat [[4, 2], [3, 1]]) 2)
             / 2 / (4 - 1))" by blast
  then have d: "fst (init_window_level ex_viewer) = Inr ()"
    "window (snd (init_window_level ex_viewer)) = 24 / 25"
    "level (snd (init_window_level ex_viewer)) = 5 / 6"
    by (simp_all add: p Fin_simps)
  from r0 i0 a1 a2 a3 a4 r3 b flat_frame m7 c ex_frame m14 d show ?thesis by blast
qed

end
